theory Spec2Isabelle
  imports Complex_Main "HOL-Library.Sublist"
begin

section \<open>Python values and exceptions\<close>

text \<open>
  Python integers are unbounded, so they are \<^typ>\<open>int\<close>. For a positive divisor
  Python's \<open>//\<close> and \<open>%\<close> are floor division and the non-negative remainder, which is
  what \<open>div\<close> and \<open>mod\<close> on \<^typ>\<open>int\<close> compute. An exception that leaves a function
  is the \<open>Inl\<close> branch of its result.
\<close>

datatype py_error =
  IndexError | ValueError | TypeError | AttributeError
  | IOError | JSONDecodeError | UnicodeDecodeError | RecursionError

section \<open>The movement scheduler: \<open>distribute_movement\<close>\<close>

text \<open>
  \<^verbatim>\<open>
  def distribute_movement(total_pixels: int, steps: int) -> List[int]:
      if steps <= 0:
          return []
      base_move = total_pixels // steps
      remainder = total_pixels % steps
      moves = [base_move] * steps
      for i in range(remainder):
          moves[i] += 1
      return moves
  \<close>
  The \<open>for\<close> loop is \<open>add_remainder\<close>, run over the indices \<open>range(remainder)\<close>; an index
  outside the list raises \<open>IndexError\<close>, as \<open>moves[i] += 1\<close> does.
\<close>

fun add_remainder :: "nat list \<Rightarrow> int list \<Rightarrow> py_error + int list" where
  "add_remainder [] moves = Inr moves"
| "add_remainder (i # is) moves =
     (if i < length moves then add_remainder is (moves[i := moves ! i + 1])
      else Inl IndexError)"

definition distribute_movement :: "int \<Rightarrow> int \<Rightarrow> py_error + int list" where
  "distribute_movement total_pixels steps =
     (if steps \<le> 0 then Inr []
      else
        let base_move = total_pixels div steps;
            remainder = total_pixels mod steps;
            moves = replicate (nat steps) base_move
        in add_remainder [0..<nat remainder] moves)"

section \<open>The serial channel, as the program uses pyserial\<close>

text \<open>
  A \<open>serial.Serial\<close> object is a record. What the host and the attached device do is
  part of it: \<open>pending\<close> scripts the outcome of the next calls of \<open>write\<close> (an empty
  script means success; \<open>WriteError\<close> stands for \<open>OSError\<close> or \<open>serial.SerialException\<close>),
  and \<open>in_waiting\<close> holds the decoded lines the device has ready to be read. \<open>written\<close>
  logs the byte strings that went out, oldest first. Timeouts are kept in milliseconds;
  the \<open>time.sleep\<close> calls are not modelled. Text is ASCII, one \<^typ>\<open>char\<close> a byte.
\<close>

datatype write_outcome = WriteOk | WriteError

record serial_port =
  device :: string
  is_open :: bool
  baudrate :: int
  timeout_ms :: nat
  write_timeout_ms :: nat
  written :: "string list"
  pending :: "write_outcome list"
  in_waiting :: "string list"

text \<open>What one attempt to open a port meets on the host.\<close>

record port_behaviour =
  open_fails :: bool
  write_outcomes :: "write_outcome list"
  reply_lines :: "string list"

definition BAUDRATE_DEFAULT :: int where
  "BAUDRATE_DEFAULT = 115200"

text \<open>\<^verbatim>\<open>serial.Serial(port.device, self.BAUDRATE_DEFAULT, timeout=0.5, write_timeout=0.1)\<close>;
  \<open>None\<close> when the constructor raises.\<close>

definition serial_Serial :: "string \<Rightarrow> port_behaviour \<Rightarrow> serial_port option" where
  "serial_Serial dev b =
     (if open_fails b then None
      else Some \<lparr>device = dev, is_open = True, baudrate = BAUDRATE_DEFAULT,
                 timeout_ms = 500, write_timeout_ms = 100, written = [],
                 pending = write_outcomes b, in_waiting = reply_lines b\<rparr>)"

text \<open>\<open>Serial.write\<close>: a closed port raises; otherwise the next scripted outcome applies.\<close>

definition serial_write :: "serial_port \<Rightarrow> string \<Rightarrow> write_outcome \<times> serial_port" where
  "serial_write s data =
     (if \<not> is_open s then (WriteError, s)
      else case pending s of
             [] \<Rightarrow> (WriteOk, s\<lparr>written := written s @ [data]\<rparr>)
           | WriteOk # rest \<Rightarrow> (WriteOk, s\<lparr>written := written s @ [data], pending := rest\<rparr>)
           | WriteError # rest \<Rightarrow> (WriteError, s\<lparr>pending := rest\<rparr>))"

definition serial_close :: "serial_port \<Rightarrow> serial_port" where
  "serial_close s = s\<lparr>is_open := False\<rparr>"

subsection \<open>String helpers of Python used by the controller\<close>

definition is_space :: "char \<Rightarrow> bool" where
  "is_space c = (let n = (of_char c :: nat) in (9 \<le> n \<and> n \<le> 13) \<or> (28 \<le> n \<and> n \<le> 32))"

definition strip :: "string \<Rightarrow> string" where
  "strip s = rev (dropWhile is_space (rev (dropWhile is_space s)))"

definition lower_char :: "char \<Rightarrow> char" where
  "lower_char c =
     (let n = (of_char c :: nat) in if 65 \<le> n \<and> n \<le> 90 then char_of (n + 32) else c)"

definition lower :: "string \<Rightarrow> string" where
  "lower s = map lower_char s"

fun join :: "string \<Rightarrow> string list \<Rightarrow> string" where
  "join sep [] = []"
| "join sep [x] = x"
| "join sep (x # y # ys) = x @ sep @ join sep (y # ys)"

text \<open>The \<open>%d\<close> conversion of an integer.\<close>

fun digits :: "nat \<Rightarrow> string" where
  "digits n = (if n < 10 then [char_of (48 + n)]
               else digits (n div 10) @ [char_of (48 + n mod 10)])"

declare digits.simps [simp del]

definition format_d :: "int \<Rightarrow> string" where
  "format_d k = (if k < 0 then CHR ''-'' # digits (nat (- k)) else digits (nat k))"

section \<open>\<open>MakcuController\<close>\<close>

record profile =
  HANDSHAKE_COMMAND :: string
  HANDSHAKE_RESPONSE_KEYWORDS :: "string list"
  BAUDRATE_HIGH :: int
  INIT_SEQUENCE :: string
  INIT_COMMAND :: string

text \<open>The dictionary \<open>DEVICE_PROFILES\<close>, in its insertion order, which is the order in
  which \<open>.items()\<close> yields it.\<close>

definition DEVICE_PROFILES :: "(string \<times> profile) list" where
  "DEVICE_PROFILES =
     [(''makcu'',
       \<lparr>HANDSHAKE_COMMAND = ''km.version()'' @ [CHR 0x0D, CHR 0x0A],
        HANDSHAKE_RESPONSE_KEYWORDS = [''km.makcu'', ''km''],
        BAUDRATE_HIGH = 4000000,
        INIT_SEQUENCE = [CHR 0xDE, CHR 0xAD, CHR 0x05, CHR 0x00, CHR 0xA5, CHR 0x00,
                         CHR 0x09, CHR 0x3D, CHR 0x00],
        INIT_COMMAND = ''km.buttons(1)'' @ [CHR 0x0D, CHR 0x0A]\<rparr>),
      (''otherbox'',
       \<lparr>HANDSHAKE_COMMAND = ''box.version()'' @ [CHR 0x0D, CHR 0x0A],
        HANDSHAKE_RESPONSE_KEYWORDS = [''otherbox''],
        BAUDRATE_HIGH = 115200,
        INIT_SEQUENCE = [],
        INIT_COMMAND = []\<rparr>)]"

text \<open>\<^verbatim>\<open>MOVE_CMD_TEMPLATE % (int(x), int(y))\<close> with the template \<^verbatim>\<open>b"km.move(%d,%d)\r"\<close>.\<close>

definition MOVE_CMD :: "int \<Rightarrow> int \<Rightarrow> string" where
  "MOVE_CMD x y = ''km.move('' @ format_d x @ '','' @ format_d y @ '')'' @ [CHR 0x0D]"

text \<open>The attributes set by \<open>__init__\<close>: \<open>serial = None\<close>, \<open>connected = False\<close>,
  \<open>port_name = None\<close>.\<close>

record MakcuController =
  serial :: "serial_port option"
  connected :: bool
  port_name :: "string option"

definition MakcuController_init :: MakcuController where
  "MakcuController_init = \<lparr>serial = None, connected = False, port_name = None\<rparr>"

text \<open>
  \<^verbatim>\<open>
  def move(self, x: int, y: int) -> bool:
      if not self.connected or not self.serial:
          return False
      if x == 0 and y == 0:
          return True
      command = self.MOVE_CMD_TEMPLATE % (int(x), int(y))
      try:
          self.serial.write(command)
          return True
      except (OSError, serial.SerialException) as e:
          print(f"[MAKCU Write Error] Connection lost: {e}")
          self.connected = False
          return False
  \<close>
  The result is the returned flag and the controller afterwards. The first guard is
  the last branch of the \<open>case\<close>: a \<open>Serial\<close> object is always truthy, so
  \<open>not self.serial\<close> means \<open>None\<close>.
\<close>

definition move :: "MakcuController \<Rightarrow> int \<Rightarrow> int \<Rightarrow> bool \<times> MakcuController" where
  "move self x y =
     (case (connected self, serial self) of
        (True, Some s) \<Rightarrow>
          if x = 0 \<and> y = 0 then (True, self)
          else
            let command = MOVE_CMD x y in
            (case serial_write s command of
               (WriteOk, s') \<Rightarrow> (True, self\<lparr>serial := Some s'\<rparr>)
             | (WriteError, s') \<Rightarrow> (False, self\<lparr>serial := Some s', connected := False\<rparr>))
      | _ \<Rightarrow> (False, self))"

text \<open>
  \<^verbatim>\<open>
  def close(self):
      if self.serial and self.serial.is_open:
          self.serial.close()
      self.connected = False
      self.port_name = None
  \<close>
\<close>

definition close_if_open :: "MakcuController \<Rightarrow> MakcuController" where
  "close_if_open self =
     (case serial self of
        None \<Rightarrow> self
      | Some s \<Rightarrow> if is_open s then self\<lparr>serial := Some (serial_close s)\<rparr> else self)"

definition close :: "MakcuController \<Rightarrow> MakcuController" where
  "close self = (close_if_open self)\<lparr>connected := False, port_name := None\<rparr>"

text \<open>
  \<^verbatim>\<open>
  def _read_response(self) -> str:
      lines = []
      try:
          while self.serial and self.serial.in_waiting:
              line = self.serial.readline().decode(errors="ignore").strip()
              if line:
                  lines.append(line)
      except Exception as e:
          print(f"[MAKCU Read Error] {e}")
      return " ".join(lines).lower()
  \<close>
  The loop drains the lines that are waiting; an exception while reading only ends it.
\<close>

definition read_response :: "serial_port \<Rightarrow> string \<times> serial_port" where
  "read_response s =
     (let lines = filter (\<lambda>line. line \<noteq> []) (map strip (in_waiting s))
      in (lower (join '' '' lines), s\<lparr>in_waiting := []\<rparr>))"

text \<open>
  \<^verbatim>\<open>
  def _finalize_connection(self, port_name: str, profile: dict):
      self.port_name = port_name
      if profile["INIT_SEQUENCE"]:
          self.serial.write(profile["INIT_SEQUENCE"])
      baud_high = profile["BAUDRATE_HIGH"]
      if baud_high != self.BAUDRATE_DEFAULT:
          self.serial.baudrate = baud_high
      if profile.get("INIT_COMMAND"):
          self.serial.write(profile["INIT_COMMAND"])
      self.serial.timeout = 0.001
      self.serial.write_timeout = 0.001
      self.connected = True
  \<close>
  It runs on the port \<open>s\<close> that \<open>connect\<close> has just stored in \<open>self.serial\<close>. The flag of
  the result is \<open>False\<close> when one of its writes raised; the controller is then as the
  exception left it.
\<close>

definition finalize_connection ::
  "MakcuController \<Rightarrow> serial_port \<Rightarrow> string \<Rightarrow> profile \<Rightarrow> bool \<times> MakcuController" where
  "finalize_connection self s port profile =
     (let self1 = self\<lparr>port_name := Some port\<rparr>;
          (r1, s1) = (if INIT_SEQUENCE profile \<noteq> [] then serial_write s (INIT_SEQUENCE profile)
                      else (WriteOk, s))
      in if r1 = WriteError then (False, self1\<lparr>serial := Some s1\<rparr>)
         else
           let baud_high = BAUDRATE_HIGH profile;
               s2 = (if baud_high \<noteq> BAUDRATE_DEFAULT then s1\<lparr>baudrate := baud_high\<rparr> else s1);
               (r3, s3) = (if INIT_COMMAND profile \<noteq> [] then serial_write s2 (INIT_COMMAND profile)
                           else (WriteOk, s2))
           in if r3 = WriteError then (False, self1\<lparr>serial := Some s3\<rparr>)
              else (True, self1\<lparr>serial := Some (s3\<lparr>timeout_ms := 1, write_timeout_ms := 1\<rparr>),
                                connected := True\<rparr>))"

text \<open>
  \<^verbatim>\<open>
  def connect(self) -> bool:
      if not HAVE_PYSERIAL:
          return False
      self.close()
      ports = list_ports.comports()
      for port in ports:
          for profile_name, profile in self.DEVICE_PROFILES.items():
              try:
                  self.serial = serial.Serial(port.device, self.BAUDRATE_DEFAULT,
                                              timeout=0.5, write_timeout=0.1)
                  time.sleep(0.5)
                  self.serial.write(profile["HANDSHAKE_COMMAND"])
                  time.sleep(0.2)
                  response = self._read_response()
                  if any(keyword in response
                         for keyword in profile["HANDSHAKE_RESPONSE_KEYWORDS"]):
                      self._finalize_connection(port.device, profile)
                      return True
                  else:
                      self.serial.close()
              except (OSError, serial.SerialException):
                  if self.serial and self.serial.is_open:
                      self.serial.close()
                  continue
      return False
  \<close>
  The part of the \<open>try\<close> block up to the response is \<open>handshake\<close>. The host is a
  function from the device name and the profile name of an attempt to what that attempt
  meets.
\<close>

datatype attempt = OpenRaised | WriteRaised serial_port | Replied string serial_port

definition handshake :: "string \<Rightarrow> profile \<Rightarrow> port_behaviour \<Rightarrow> attempt" where
  "handshake dev profile b =
     (case serial_Serial dev b of
        None \<Rightarrow> OpenRaised
      | Some s0 \<Rightarrow>
          (case serial_write s0 (HANDSHAKE_COMMAND profile) of
             (WriteError, s1) \<Rightarrow> WriteRaised s1
           | (WriteOk, s1) \<Rightarrow> (case read_response s1 of (response, s2) \<Rightarrow> Replied response s2)))"

definition keyword_match :: "profile \<Rightarrow> string \<Rightarrow> bool" where
  "keyword_match profile response =
     list_ex (\<lambda>keyword. sublist keyword response) (HANDSHAKE_RESPONSE_KEYWORDS profile)"

type_synonym host = "string \<Rightarrow> string \<Rightarrow> port_behaviour"

fun try_candidates ::
  "host \<Rightarrow> (string \<times> string \<times> profile) list \<Rightarrow> MakcuController \<Rightarrow> bool \<times> MakcuController" where
  "try_candidates host [] self = (False, self)"
| "try_candidates host ((dev, profile_name, profile) # rest) self =
     (case handshake dev profile (host dev profile_name) of
        OpenRaised \<Rightarrow> try_candidates host rest (close_if_open self)
      | WriteRaised s \<Rightarrow> try_candidates host rest (close_if_open (self\<lparr>serial := Some s\<rparr>))
      | Replied response s \<Rightarrow>
          if keyword_match profile response then
            (case finalize_connection (self\<lparr>serial := Some s\<rparr>) s dev profile of
               (True, self') \<Rightarrow> (True, self')
             | (False, self') \<Rightarrow> try_candidates host rest (close_if_open self'))
          else try_candidates host rest (self\<lparr>serial := Some (serial_close s)\<rparr>))"

definition candidates :: "string list \<Rightarrow> (string \<times> string \<times> profile) list" where
  "candidates ports =
     concat (map (\<lambda>dev. map (\<lambda>(profile_name, profile). (dev, profile_name, profile))
                              DEVICE_PROFILES) ports)"

definition connect ::
  "bool \<Rightarrow> string list \<Rightarrow> host \<Rightarrow> MakcuController \<Rightarrow> bool \<times> MakcuController" where
  "connect HAVE_PYSERIAL ports host self =
     (if \<not> HAVE_PYSERIAL then (False, self)
      else try_candidates host (candidates ports) (close self))"

section \<open>\<open>Config.load\<close>\<close>

text \<open>
  What \<open>json.load\<close> returns is a \<open>json\<close> value (numbers that are not integers are left
  out: no setting of the program is one). A dictionary is a map from keys to values;
  an object of the document that repeats a key keeps the last value, as \<open>json.load\<close>
  does.
\<close>

datatype json =
  JNull | JBool bool | JInt int | JStr string | JArray "json list"
  | JObject "(string \<times> json) list"

type_synonym dict = "string \<rightharpoonup> json"

definition dict_of :: "(string \<times> json) list \<Rightarrow> dict" where
  "dict_of kvs = map_of (rev kvs)"

definition DEFAULTS :: dict where
  "DEFAULTS = map_of
     [(''recoil_compensation'', JBool True),
      (''bloom_reduction'', JBool False),
      (''require_ads'', JBool True),
      (''show_crosshair'', JBool False),
      (''recoil_strength'', JInt 11),
      (''smoothing'', JInt 3),
      (''bloom_intensity'', JInt 2),
      (''crosshair_color'', JStr ''#BF40BF''),
      (''crosshair_size'', JInt 5),
      (''crosshair_thickness'', JInt 2),
      (''use_makcu'', JBool False)]"

text \<open>
  The file at \<open>CONFIG_PATH\<close> as \<open>load\<close> meets it: absent (\<open>os.path.exists\<close> is false);
  present, but opening, reading or parsing it raises an exception; or holding a JSON
  value. The exceptions that arise there are \<open>IOError\<close> (the class \<open>OSError\<close>, when the
  file cannot be opened or read), \<open>UnicodeDecodeError\<close> (its bytes are not text in the
  encoding of \<open>open\<close>), \<open>JSONDecodeError\<close> (the text is not JSON) and \<open>RecursionError\<close>
  (the JSON is nested too deeply for the parser).
  \<^verbatim>\<open>
  def load(cls) -> dict:
      try:
          if os.path.exists(cls.CONFIG_PATH):
              with open(cls.CONFIG_PATH, 'r') as f:
                  return {**cls.DEFAULTS, **json.load(f)}
      except (json.JSONDecodeError, IOError) as e:
          print(f"[Config Error] Could not load config file: {e}")
      return cls.DEFAULTS.copy()
  \<close>
  The \<open>except\<close> clause catches the two classes it names; any other exception leaves
  \<open>load\<close>. Unpacking with \<open>**\<close> a value that is not an object raises \<open>TypeError\<close>,
  inside the \<open>try\<close> block, and that is not caught either.
\<close>

datatype config_file = NoFile | Unreadable py_error | Document json

fun load :: "config_file \<Rightarrow> py_error + dict" where
  "load NoFile = Inr DEFAULTS"
| "load (Unreadable e) = (if e = JSONDecodeError \<or> e = IOError then Inr DEFAULTS else Inl e)"
| "load (Document (JObject kvs)) = Inr (DEFAULTS ++ dict_of kvs)"
| "load (Document _) = Inl TypeError"

section \<open>\<open>CloudRecoil.recoil_loop\<close>\<close>

text \<open>
  The snapshot \<open>config\<close> that one iteration of the loop reads, with the fields the loop
  uses, typed as the defaults and the widgets of the window set them.
\<close>

record config =
  recoil_compensation :: bool
  bloom_reduction :: bool
  require_ads :: bool
  recoil_strength :: int
  smoothing :: int
  bloom_intensity :: int
  use_makcu :: bool

text \<open>
  What one iteration reads from outside: the snapshot, the two key states
  (\<open>GetAsyncKeyState(...) < 0\<close>) and the source of randomness that \<open>random.randint\<close>
  draws from.
\<close>

record tick_input =
  snapshot :: config
  lmb_pressed :: bool
  ads_pressed :: bool
  entropy :: nat

text \<open>The calls made to a backend, in order: \<open>win32api.mouse_event(MOUSEEVENTF_MOVE, dx,
  dy, 0, 0)\<close>, and \<open>self.mouse_controller.move(dx, dy)\<close> with what it returned.\<close>

datatype call = Win32MouseEvent int int | MakcuMove int int bool

record loop_state =
  fps :: int
  mouse_controller :: "MakcuController option"
  calls :: "call list"
  activity_signals :: nat

text \<open>\<open>random.randint(a, b)\<close>: some integer of \<open>[a, b]\<close>, \<open>ValueError\<close> on an empty range.\<close>

definition randint :: "nat \<Rightarrow> int \<Rightarrow> int \<Rightarrow> py_error + int" where
  "randint seed a b = (if b < a then Inl ValueError else Inr (a + int seed mod (b - a + 1)))"

definition is_recoil_active :: "config \<Rightarrow> bool \<Rightarrow> bool \<Rightarrow> bool" where
  "is_recoil_active cfg lmb ads =
     (lmb \<and> recoil_compensation cfg \<and> (\<not> require_ads cfg \<or> ads))"

text \<open>\<^verbatim>\<open>use_makcu = (config.get('use_makcu', False) and
               self.mouse_controller and self.mouse_controller.connected)\<close>\<close>

definition use_hardware :: "config \<Rightarrow> loop_state \<Rightarrow> bool" where
  "use_hardware cfg st =
     (use_makcu cfg \<and> (case mouse_controller st of None \<Rightarrow> False | Some ctl \<Rightarrow> connected ctl))"

text \<open>
  The body of the inner loop after \<open>dx\<close> and \<open>dy\<close> are read:
  \<^verbatim>\<open>
  if use_makcu:
      if self.mouse_controller.move(dx, dy):
          self.makcu_activity_signal.emit()
  else:
      win32api.mouse_event(win32con.MOUSEEVENTF_MOVE, dx, dy, 0, 0)
  \<close>
\<close>

definition send_move :: "bool \<Rightarrow> int \<Rightarrow> int \<Rightarrow> loop_state \<Rightarrow> py_error + loop_state" where
  "send_move use_hw dx dy st =
     (if use_hw then
        (case mouse_controller st of
           None \<Rightarrow> Inl AttributeError
         | Some ctl \<Rightarrow>
             (case move ctl dx dy of
                (ok, ctl') \<Rightarrow>
                  Inr (st\<lparr>mouse_controller := Some ctl',
                           calls := calls st @ [MakcuMove dx dy ok],
                           activity_signals := activity_signals st + (if ok then 1 else 0)\<rparr>)))
      else Inr (st\<lparr>calls := calls st @ [Win32MouseEvent dx dy]\<rparr>))"

text \<open>\<^verbatim>\<open>for i in range(smoothing): dx = x_moves[i]; dy = y_moves[i]; ...\<close>\<close>

fun dispatch ::
  "bool \<Rightarrow> int list \<Rightarrow> int list \<Rightarrow> nat list \<Rightarrow> loop_state \<Rightarrow> py_error + loop_state" where
  "dispatch use_hw x_moves y_moves [] st = Inr st"
| "dispatch use_hw x_moves y_moves (i # is) st =
     (if i < length x_moves \<and> i < length y_moves then
        let dx = x_moves ! i; dy = y_moves ! i in
        (case send_move use_hw dx dy st of
           Inl e \<Rightarrow> Inl e
         | Inr st' \<Rightarrow> dispatch use_hw x_moves y_moves is st')
      else Inl IndexError)"

text \<open>
  One iteration of \<open>while self.app_state.running\<close>:
  \<^verbatim>\<open>
  self.app_state.fps += 1
  config = self.app_state.get_full_config()
  lmb_pressed = win32api.GetAsyncKeyState(win32con.VK_LBUTTON) < 0
  ads_pressed = win32api.GetAsyncKeyState(win32con.VK_RBUTTON) < 0
  is_recoil_active = (lmb_pressed and config['recoil_compensation'] and
                      (not config['require_ads'] or ads_pressed))
  if is_recoil_active:
      smoothing = max(1, config['smoothing'])
      dy_total = config['recoil_strength']
      dx_total = 0
      if config['bloom_reduction']:
          dx_total = random.randint(-config['bloom_intensity'], config['bloom_intensity'])
      y_moves = distribute_movement(dy_total, smoothing)
      x_moves = distribute_movement(dx_total, smoothing)
      use_makcu = (...)
      for i in range(smoothing):
          ...
  \<close>
\<close>

definition tick :: "tick_input \<Rightarrow> loop_state \<Rightarrow> py_error + loop_state" where
  "tick inp st0 =
     (let st = st0\<lparr>fps := fps st0 + 1\<rparr>;
          cfg = snapshot inp
      in if is_recoil_active cfg (lmb_pressed inp) (ads_pressed inp) then
           let smoothing' = max 1 (smoothing cfg);
               dy_total = recoil_strength cfg
           in (case (if bloom_reduction cfg
                     then randint (entropy inp) (- bloom_intensity cfg) (bloom_intensity cfg)
                     else Inr 0) of
                 Inl e \<Rightarrow> Inl e
               | Inr dx_total \<Rightarrow>
                   (case distribute_movement dy_total smoothing' of
                      Inl e \<Rightarrow> Inl e
                    | Inr y_moves \<Rightarrow>
                        (case distribute_movement dx_total smoothing' of
                           Inl e \<Rightarrow> Inl e
                         | Inr x_moves \<Rightarrow>
                             dispatch (use_hardware cfg st) x_moves y_moves
                               [0..<nat smoothing'] st)))
         else Inr st)"

text \<open>The loop over the iterations it makes before \<open>running\<close> is cleared, one input each.\<close>

fun recoil_loop :: "tick_input list \<Rightarrow> loop_state \<Rightarrow> py_error + loop_state" where
  "recoil_loop [] st = Inr st"
| "recoil_loop (inp # inps) st =
     (case tick inp st of Inl e \<Rightarrow> Inl e | Inr st' \<Rightarrow> recoil_loop inps st')"

text \<open>The displacement a backend call carries.\<close>

fun call_dx :: "call \<Rightarrow> int" where
  "call_dx (Win32MouseEvent dx dy) = dx"
| "call_dx (MakcuMove dx dy ok) = dx"

fun call_dy :: "call \<Rightarrow> int" where
  "call_dy (Win32MouseEvent dx dy) = dy"
| "call_dy (MakcuMove dx dy ok) = dy"

text \<open>The settings of \<open>Config.DEFAULTS\<close> as a snapshot, and the state in which the loop
  starts: no iteration counted, no call made.\<close>

definition default_config :: config where
  "default_config =
     \<lparr>recoil_compensation = True, bloom_reduction = False, require_ads = True,
      recoil_strength = 11, smoothing = 3, bloom_intensity = 2, use_makcu = False\<rparr>"

definition initial_state :: "MakcuController option \<Rightarrow> loop_state" where
  "initial_state ctl = \<lparr>fps = 0, mouse_controller = ctl, calls = [], activity_signals = 0\<rparr>"

text \<open>A controller as \<open>connect\<close> leaves it on success, on a port whose next writes meet
  the given outcomes.\<close>

definition connected_controller :: "write_outcome list \<Rightarrow> MakcuController" where
  "connected_controller outcomes =
     \<lparr>serial = Some \<lparr>device = ''COM3'', is_open = True, baudrate = 4000000, timeout_ms = 1,
                      write_timeout_ms = 1, written = [], pending = outcomes,
                      in_waiting = []\<rparr>,
      connected = True, port_name = Some ''COM3''\<rparr>"

text \<open>Two predicates on the state of the loop: the controller is absent or its
  \<open>connected\<close> flag is down; the controller is absent or holds a \<open>Serial\<close> object.\<close>

definition disconnected :: "loop_state \<Rightarrow> bool" where
  "disconnected st =
     (case mouse_controller st of None \<Rightarrow> True | Some ctl \<Rightarrow> \<not> connected ctl)"

definition has_serial :: "loop_state \<Rightarrow> bool" where
  "has_serial st =
     (case mouse_controller st of None \<Rightarrow> True | Some ctl \<Rightarrow> serial ctl \<noteq> None)"

text \<open>
  Two predicates on a candidate of \<open>connect\<close>: its handshake gets a response holding an
  accepted keyword; and, beyond that, the writes of \<open>_finalize_connection\<close> succeed on
  it (the flag that function returns does not depend on the controller it starts from).
\<close>

definition candidate_matches :: "host \<Rightarrow> string \<times> string \<times> profile \<Rightarrow> bool" where
  "candidate_matches host c =
     (case c of (dev, profile_name, profile) \<Rightarrow>
        (case handshake dev profile (host dev profile_name) of
           Replied response s \<Rightarrow> keyword_match profile response
         | _ \<Rightarrow> False))"

definition candidate_succeeds :: "host \<Rightarrow> string \<times> string \<times> profile \<Rightarrow> bool" where
  "candidate_succeeds host c =
     (case c of (dev, profile_name, profile) \<Rightarrow>
        (case handshake dev profile (host dev profile_name) of
           Replied response s \<Rightarrow>
             keyword_match profile response \<and>
             fst (finalize_connection MakcuController_init s dev profile)
         | _ \<Rightarrow> False))"

text \<open>A host on which no supported device answers: the port cannot be opened, the
  reply names no known device, or the handshake cannot be written.\<close>

definition silent_host :: host where
  "silent_host dev profile_name =
     (if profile_name = ''makcu''
      then (if dev = ''COM3''
            then \<lparr>open_fails = True, write_outcomes = [], reply_lines = []\<rparr>
            else \<lparr>open_fails = False, write_outcomes = [],
                  reply_lines = [''  Ready '', ''v1.0'']\<rparr>)
      else \<lparr>open_fails = False, write_outcomes = [WriteError], reply_lines = []\<rparr>)"

section \<open>Properties of the scheduler\<close>

lemma add_remainder_append:
  "add_remainder (is @ js) moves =
     (case add_remainder is moves of Inl e \<Rightarrow> Inl e | Inr moves' \<Rightarrow> add_remainder js moves')"
  by (induction "is" arbitrary: moves) auto

lemma add_remainder_replicate:
  "r \<le> n \<Longrightarrow>
   add_remainder [0..<r] (replicate n q) = Inr (replicate r (q + 1) @ replicate (n - r) q)"
proof (induction r)
  case 0
  then show ?case by simp
next
  case (Suc r)
  then have r: "r < n" by simp
  then obtain m where m: "n - r = Suc m" and m': "n - Suc r = m"
    by (cases "n - r") auto
  have "(replicate r (q + 1) @ replicate (n - r) q)[r := q + 1]
          = replicate r (q + 1) @ (q + 1) # replicate m q"
    by (simp add: m list_update_append)
  moreover have "(replicate r (q + 1) @ replicate (n - r) q) ! r = q"
    by (simp add: m nth_append)
  moreover have "replicate r (q + 1) @ (q + 1) # replicate m q
          = replicate (Suc r) (q + 1) @ replicate m q"
    by (simp add: replicate_app_Cons_same)
  ultimately show ?case
    using Suc.IH r by (simp add: add_remainder_append m m')
qed

lemma distribute_movement_closed:
  assumes "0 < steps"
  shows "distribute_movement tot steps =
           Inr (replicate (nat (tot mod steps)) (tot div steps + 1) @
                replicate (nat steps - nat (tot mod steps)) (tot div steps))"
proof -
  have "tot mod steps < steps" using assms by simp
  then have "nat (tot mod steps) \<le> nat steps" by simp
  then show ?thesis
    using assms by (simp add: distribute_movement_def add_remainder_replicate Let_def)
qed

lemma sum_list_plan:
  assumes "0 < steps"
  shows "sum_list (replicate (nat (tot mod steps)) (tot div steps + 1) @
                   replicate (nat steps - nat (tot mod steps)) (tot div steps)) = tot"
proof -
  let ?q = "tot div steps" and ?r = "tot mod steps"
  have r: "0 \<le> ?r" "?r < steps" using assms by simp_all
  have "int (nat steps - nat ?r) = steps - ?r" using r by simp
  then have "sum_list (replicate (nat ?r) (?q + 1) @ replicate (nat steps - nat ?r) ?q)
          = ?r * (?q + 1) + (steps - ?r) * ?q"
    using r by (simp add: sum_list_replicate)
  also have "\<dots> = steps * ?q + ?r" by (simp add: algebra_simps)
  also have "\<dots> = tot" by simp
  finally show ?thesis .
qed

lemma nth_plan:
  assumes "0 < steps" and "i < nat steps"
  shows "(replicate (nat (tot mod steps)) (tot div steps + 1) @
          replicate (nat steps - nat (tot mod steps)) (tot div steps)) ! i
         = tot div steps + (if int i < tot mod steps then 1 else 0)"
proof -
  have r: "0 \<le> tot mod steps" "tot mod steps < steps" using assms by simp_all
  show ?thesis
  proof (cases "int i < tot mod steps")
    case True
    then have "i < nat (tot mod steps)" by simp
    then show ?thesis using True by (simp add: nth_append)
  next
    case False
    then have "\<not> i < nat (tot mod steps)" using r by simp
    moreover have "i - nat (tot mod steps) < nat steps - nat (tot mod steps)"
      using False assms r by linarith
    ultimately show ?thesis using False by (simp add: nth_append)
  qed
qed

text \<open>
  Claim C1. For all integers \<open>total\<close> and \<open>steps\<close>, \<open>distribute_movement total steps\<close> is
  the empty list when \<open>steps \<le> 0\<close>; otherwise it is a list of exactly \<open>steps\<close> entries,
  entry \<open>i\<close> being \<open>total // steps\<close>, plus one for the first \<open>total % steps\<close> indices, and
  the entries sum to \<open>total\<close>. In particular \<open>distribute(10, 3) = [4, 3, 3]\<close>,
  \<open>distribute(0, 5) = [0, 0, 0, 0, 0]\<close> and \<open>distribute(7, 1) = [7]\<close>.
\<close>

theorem distribute_movement_spec:
  "(steps \<le> 0 \<longrightarrow> distribute_movement tot steps = Inr []) \<and>
   (0 < steps \<longrightarrow>
      (\<exists>moves. distribute_movement tot steps = Inr moves \<and>
         length moves = nat steps \<and>
         (\<forall>i < nat steps.
            moves ! i = tot div steps + (if int i < tot mod steps then 1 else 0)) \<and>
         sum_list moves = tot)) \<and>
   distribute_movement 10 3 = Inr [4, 3, 3] \<and>
   distribute_movement 0 5 = Inr [0, 0, 0, 0, 0] \<and>
   distribute_movement 7 1 = Inr [7]"
proof (intro conjI impI)
  assume "steps \<le> 0"
  then show "distribute_movement tot steps = Inr []"
    by (simp add: distribute_movement_def)
next
  assume pos: "0 < steps"
  let ?ms = "replicate (nat (tot mod steps)) (tot div steps + 1) @
             replicate (nat steps - nat (tot mod steps)) (tot div steps)"
  have "tot mod steps < steps" using pos by simp
  then have len: "length ?ms = nat steps" by simp
  show "\<exists>moves. distribute_movement tot steps = Inr moves \<and>
         length moves = nat steps \<and>
         (\<forall>i < nat steps.
            moves ! i = tot div steps + (if int i < tot mod steps then 1 else 0)) \<and>
         sum_list moves = tot"
    using distribute_movement_closed [OF pos, of tot] len nth_plan [OF pos, of _ tot]
      sum_list_plan [OF pos, of tot]
    by blast
next
  show "distribute_movement 10 3 = Inr [4, 3, 3]"
    by (simp add: distribute_movement_closed eval_nat_numeral)
next
  show "distribute_movement 0 5 = Inr [0, 0, 0, 0, 0]"
    by (simp add: distribute_movement_closed eval_nat_numeral)
next
  show "distribute_movement 7 1 = Inr [7]"
    by (simp add: distribute_movement_closed)
qed

theorem distribute_movement_spec_witness:
  "\<not> (4::int) \<le> 0 \<and> (0::int) < 4 \<and>
   (\<exists>moves. distribute_movement 11 4 = Inr moves \<and> length moves = 4 \<and>
      moves ! 2 = 3 \<and> moves ! 3 = 2 \<and> sum_list moves = 11)"
proof -
  have pos: "(0::int) < 4" by simp
  from distribute_movement_spec [of 4 11] pos
  obtain moves where m: "distribute_movement 11 4 = Inr moves" "length moves = nat 4"
    "\<forall>i < nat 4. moves ! i = 11 div 4 + (if int i < 11 mod 4 then 1 else 0)"
    "sum_list moves = 11"
    by blast
  from m(3) have "moves ! 2 = 3" "moves ! 3 = 2" by simp_all
  with m pos show ?thesis by simp
qed

text \<open>
  Claim C4. For a negative \<open>total\<close> and \<open>steps \<ge> 1\<close> the base move is the floor of
  \<open>total / steps\<close> (rounding towards minus infinity) and the remainder is the matching
  one, which lies in \<open>[0, steps)\<close>; that many leading entries are one larger than the
  base move, and the entries sum to \<open>total\<close>. For example \<open>distribute(-7, 3)\<close> is
  \<open>[-2, -2, -3]\<close>.
\<close>

theorem distribute_movement_negative:
  assumes "tot < 0" and "1 \<le> steps"
    and "q = \<lfloor>real_of_int tot / real_of_int steps\<rfloor>" and "r = tot - q * steps"
  shows "0 \<le> r \<and> r < steps \<and>
         distribute_movement tot steps =
           Inr (replicate (nat r) (q + 1) @ replicate (nat (steps - r)) q) \<and>
         sum_list (replicate (nat r) (q + 1) @ replicate (nat (steps - r)) q) = tot \<and>
         distribute_movement (- 7) 3 = Inr [- 2, - 2, - 3]"
proof -
  have pos: "0 < steps" using assms(2) by simp
  have q: "q = tot div steps" using assms(3) by (simp add: floor_divide_of_int_eq)
  have r: "r = tot mod steps" using assms(4) q by (simp add: minus_div_mult_eq_mod)
  have r0: "0 \<le> r" "r < steps" using r pos by simp_all
  have n: "nat steps - nat r = nat (steps - r)" using r0 by simp
  have "distribute_movement (- 7) 3 = Inr [- 2, - 2, - 3]"
    by (simp add: distribute_movement_closed eval_nat_numeral)
  then show ?thesis
    using distribute_movement_closed [OF pos, of tot] sum_list_plan [OF pos, of tot] q r r0 n
    by simp
qed

theorem distribute_movement_negative_witness:
  "(- 7 :: int) < 0 \<and> (1::int) \<le> 3 \<and> \<lfloor>real_of_int (- 7) / real_of_int 3\<rfloor> = - 3 \<and>
   (2::int) = - 7 - (- 3) * 3 \<and>
   distribute_movement (- 7) 3 = Inr (replicate (nat 2) (- 3 + 1) @ replicate (nat (3 - 2)) (- 3))"
proof -
  have a: "(- 7 :: int) < 0" and b: "(1::int) \<le> 3" by simp_all
  have "(- 7 :: int) div 3 = - 3" by simp
  then have c: "(- 3 :: int) = \<lfloor>real_of_int (- 7) / real_of_int 3\<rfloor>"
    by (simp only: floor_divide_of_int_eq)
  have d: "(2::int) = - 7 - (- 3) * 3" by simp
  from distribute_movement_negative [OF a b c d]
  have r: "distribute_movement (- 7) 3 =
          Inr (replicate (nat 2) (- 3 + 1) @ replicate (nat (3 - 2)) (- 3))"
    by (elim conjE)
  from a b c [symmetric] d r show ?thesis by (intro conjI)
qed

section \<open>Properties of one iteration of the loop\<close>

lemma send_move_hw:
  assumes "mouse_controller st = Some ctl"
  shows "send_move True dx dy st =
           Inr (st\<lparr>mouse_controller := Some (snd (move ctl dx dy)),
                    calls := calls st @ [MakcuMove dx dy (fst (move ctl dx dy))],
                    activity_signals :=
                      activity_signals st + (if fst (move ctl dx dy) then 1 else 0)\<rparr>)"
  using assms by (simp add: send_move_def split: prod.split)

lemma send_move_sw:
  "send_move False dx dy st = Inr (st\<lparr>calls := calls st @ [Win32MouseEvent dx dy]\<rparr>)"
  by (simp add: send_move_def)

lemma send_move_step:
  assumes "use_hw \<longrightarrow> mouse_controller st \<noteq> None"
  shows "\<exists>st1 c. send_move use_hw dx dy st = Inr st1 \<and> calls st1 = calls st @ [c] \<and>
           call_dx c = dx \<and> call_dy c = dy \<and> fps st1 = fps st \<and>
           (mouse_controller st1 = None \<longleftrightarrow> mouse_controller st = None) \<and>
           (\<not> use_hw \<longrightarrow> mouse_controller st1 = mouse_controller st \<and>
              c = Win32MouseEvent dx dy)"
proof (cases use_hw)
  case True
  with assms obtain ctl where ctl: "mouse_controller st = Some ctl" by auto
  let ?ok = "fst (move ctl dx dy)"
  let ?st1 = "st\<lparr>mouse_controller := Some (snd (move ctl dx dy)),
                  calls := calls st @ [MakcuMove dx dy ?ok],
                  activity_signals := activity_signals st + (if ?ok then 1 else 0)\<rparr>"
  have "send_move use_hw dx dy st = Inr ?st1"
    using True send_move_hw [OF ctl] by simp
  then show ?thesis
    using True ctl by (intro exI [of _ ?st1] exI [of _ "MakcuMove dx dy ?ok"]) simp
next
  case False
  then show ?thesis
    by (intro exI [of _ "st\<lparr>calls := calls st @ [Win32MouseEvent dx dy]\<rparr>"]
        exI [of _ "Win32MouseEvent dx dy"]) (simp add: send_move_sw)
qed

lemma dispatch_calls:
  assumes "\<forall>i \<in> set is. i < length x_moves \<and> i < length y_moves"
    and "use_hw \<longrightarrow> mouse_controller st \<noteq> None"
  shows "\<exists>st' sent. dispatch use_hw x_moves y_moves is st = Inr st' \<and>
           calls st' = calls st @ sent \<and>
           map call_dx sent = map (\<lambda>i. x_moves ! i) is \<and>
           map call_dy sent = map (\<lambda>i. y_moves ! i) is \<and>
           fps st' = fps st \<and>
           (mouse_controller st' = None \<longleftrightarrow> mouse_controller st = None) \<and>
           (\<not> use_hw \<longrightarrow> mouse_controller st' = mouse_controller st \<and>
              sent = map (\<lambda>i. Win32MouseEvent (x_moves ! i) (y_moves ! i)) is)"
  using assms
proof (induction "is" arbitrary: st)
  case Nil
  then show ?case by simp
next
  case (Cons i "is")
  let ?dx = "x_moves ! i" and ?dy = "y_moves ! i"
  have i: "i < length x_moves \<and> i < length y_moves" using Cons.prems(1) by simp
  have rest: "\<forall>i \<in> set is. i < length x_moves \<and> i < length y_moves"
    using Cons.prems(1) by simp
  from send_move_step [OF Cons.prems(2), of ?dx ?dy]
  obtain st1 c where s: "send_move use_hw ?dx ?dy st = Inr st1"
    and c: "calls st1 = calls st @ [c]" "call_dx c = ?dx" "call_dy c = ?dy"
    and f: "fps st1 = fps st"
    and m: "mouse_controller st1 = None \<longleftrightarrow> mouse_controller st = None"
    and w: "\<not> use_hw \<longrightarrow> mouse_controller st1 = mouse_controller st \<and>
              c = Win32MouseEvent ?dx ?dy"
    by (elim exE conjE) (rule that)
  have "use_hw \<longrightarrow> mouse_controller st1 \<noteq> None" using Cons.prems(2) m by simp
  from Cons.IH [OF rest this] obtain st' sent where
    d: "dispatch use_hw x_moves y_moves is st1 = Inr st'"
      "calls st' = calls st1 @ sent"
      "map call_dx sent = map (\<lambda>i. x_moves ! i) is"
      "map call_dy sent = map (\<lambda>i. y_moves ! i) is"
      "fps st' = fps st1"
      "mouse_controller st' = None \<longleftrightarrow> mouse_controller st1 = None"
      "\<not> use_hw \<longrightarrow> mouse_controller st' = mouse_controller st1 \<and>
         sent = map (\<lambda>i. Win32MouseEvent (x_moves ! i) (y_moves ! i)) is"
    by (elim exE conjE) (rule that)
  have "dispatch use_hw x_moves y_moves (i # is) st = Inr st'"
    using i s d(1) by simp
  moreover have "calls st' = calls st @ (c # sent)" using c(1) d(2) by simp
  ultimately show ?case
    using c(2,3) d(3-7) f m w by (intro exI [of _ st'] exI [of _ "c # sent"]) simp
qed

lemma distribute_movement_length:
  assumes "0 < steps"
  shows "\<exists>moves. distribute_movement tot steps = Inr moves \<and> length moves = nat steps \<and>
           sum_list moves = tot"
proof -
  have "tot mod steps < steps" using assms by simp
  then have "nat (tot mod steps) \<le> nat steps" by simp
  then show ?thesis
    using distribute_movement_closed [OF assms, of tot] sum_list_plan [OF assms, of tot]
    by simp
qed

lemma randint_range:
  assumes "a \<le> b"
  shows "\<exists>r. randint seed a b = Inr r \<and> a \<le> r \<and> r \<le> b"
proof -
  have "0 < b - a + 1" using assms by simp
  then have "0 \<le> int seed mod (b - a + 1)" "int seed mod (b - a + 1) < b - a + 1"
    by (rule pos_mod_sign, rule pos_mod_bound)
  then show ?thesis using assms by (simp add: randint_def)
qed

lemma tick_idle:
  assumes "\<not> is_recoil_active (snapshot inp) (lmb_pressed inp) (ads_pressed inp)"
  shows "tick inp st = Inr (st\<lparr>fps := fps st + 1\<rparr>)"
  using assms by (simp add: tick_def)

lemma map2_nth:
  assumes "length xs = n" and "length ys = n"
  shows "map (\<lambda>i. f (xs ! i) (ys ! i)) [0..<n] = map2 f xs ys"
  using assms by (intro nth_equalityI) simp_all

lemma tick_active:
  assumes act: "is_recoil_active (snapshot inp) (lmb_pressed inp) (ads_pressed inp)"
    and bloom: "bloom_reduction (snapshot inp) \<longrightarrow> 0 \<le> bloom_intensity (snapshot inp)"
  shows "\<exists>st' sent dx_total x_moves y_moves.
           tick inp st = Inr st' \<and>
           calls st' = calls st @ sent \<and>
           (if bloom_reduction (snapshot inp)
            then - bloom_intensity (snapshot inp) \<le> dx_total \<and>
                 dx_total \<le> bloom_intensity (snapshot inp)
            else dx_total = 0) \<and>
           distribute_movement dx_total (max 1 (smoothing (snapshot inp))) = Inr x_moves \<and>
           distribute_movement (recoil_strength (snapshot inp))
             (max 1 (smoothing (snapshot inp))) = Inr y_moves \<and>
           length x_moves = nat (max 1 (smoothing (snapshot inp))) \<and>
           length y_moves = nat (max 1 (smoothing (snapshot inp))) \<and>
           map call_dx sent = x_moves \<and>
           map call_dy sent = y_moves \<and>
           fps st' = fps st + 1 \<and>
           (\<not> use_hardware (snapshot inp) st \<longrightarrow>
              mouse_controller st' = mouse_controller st \<and>
              sent = map2 Win32MouseEvent x_moves y_moves)"
proof -
  let ?cfg = "snapshot inp"
  let ?n = "max 1 (smoothing ?cfg)"
  let ?st = "st\<lparr>fps := fps st + 1\<rparr>"
  let ?rnd = "if bloom_reduction ?cfg
              then randint (entropy inp) (- bloom_intensity ?cfg) (bloom_intensity ?cfg)
              else Inr 0"
  have pos: "0 < ?n" by simp
  obtain dx_total where dx: "?rnd = Inr dx_total"
    and dxr: "if bloom_reduction ?cfg
              then - bloom_intensity ?cfg \<le> dx_total \<and> dx_total \<le> bloom_intensity ?cfg
              else dx_total = 0"
  proof (cases "bloom_reduction ?cfg")
    case True
    with bloom have "- bloom_intensity ?cfg \<le> bloom_intensity ?cfg" by simp
    from randint_range [OF this, of "entropy inp"] True that show ?thesis by auto
  next
    case False
    with that show ?thesis by simp
  qed
  from distribute_movement_length [OF pos, of dx_total] obtain x_moves where
    x: "distribute_movement dx_total ?n = Inr x_moves" "length x_moves = nat ?n" by blast
  from distribute_movement_length [OF pos, of "recoil_strength ?cfg"] obtain y_moves where
    y: "distribute_movement (recoil_strength ?cfg) ?n = Inr y_moves" "length y_moves = nat ?n"
    by blast
  have t: "tick inp st = dispatch (use_hardware ?cfg ?st) x_moves y_moves [0..<nat ?n] ?st"
    using act dx x(1) y(1) by (simp add: tick_def Let_def)
  have uh: "use_hardware ?cfg ?st = use_hardware ?cfg st"
    by (simp add: use_hardware_def)
  have idx: "\<forall>i \<in> set [0..<nat ?n]. i < length x_moves \<and> i < length y_moves"
    using x(2) y(2) by simp
  have ctl: "use_hardware ?cfg ?st \<longrightarrow> mouse_controller ?st \<noteq> None"
    by (auto simp: use_hardware_def split: option.splits)
  from dispatch_calls [OF idx ctl] obtain st' sent where
    d: "dispatch (use_hardware ?cfg ?st) x_moves y_moves [0..<nat ?n] ?st = Inr st'"
      "calls st' = calls ?st @ sent"
      "map call_dx sent = map (\<lambda>i. x_moves ! i) [0..<nat ?n]"
      "map call_dy sent = map (\<lambda>i. y_moves ! i) [0..<nat ?n]"
      "fps st' = fps ?st"
      "\<not> use_hardware ?cfg ?st \<longrightarrow> mouse_controller st' = mouse_controller ?st \<and>
         sent = map (\<lambda>i. Win32MouseEvent (x_moves ! i) (y_moves ! i)) [0..<nat ?n]"
    by (elim exE conjE) (rule that)
  have mx: "map (\<lambda>i. x_moves ! i) [0..<nat ?n] = x_moves"
    using x(2) map_nth [of x_moves] by simp
  have my: "map (\<lambda>i. y_moves ! i) [0..<nat ?n] = y_moves"
    using y(2) map_nth [of y_moves] by simp
  have mw: "map (\<lambda>i. Win32MouseEvent (x_moves ! i) (y_moves ! i)) [0..<nat ?n]
              = map2 Win32MouseEvent x_moves y_moves"
    by (rule map2_nth [OF x(2) y(2)])
  show ?thesis
    using t d dxr x y mx my mw uh by (intro exI [of _ st'] exI [of _ sent]
        exI [of _ dx_total] exI [of _ x_moves] exI [of _ y_moves]) simp
qed

text \<open>
  Claim C2. For every snapshot of the configuration and every pair of key states, an
  iteration of the loop moves the pointer exactly when \<open>recoil_compensation\<close> is set, the
  primary button is pressed, and \<open>require_ads\<close> is unset or the secondary button is
  pressed. When the predicate is false the iteration only counts itself; when it is true
  (and the jitter range is not empty) it issues \<open>max(1, smoothing)\<close> backend calls.
\<close>

theorem activation_predicate:
  "is_recoil_active (snapshot inp) (lmb_pressed inp) (ads_pressed inp) =
     (recoil_compensation (snapshot inp) \<and> lmb_pressed inp \<and>
      (\<not> require_ads (snapshot inp) \<or> ads_pressed inp)) \<and>
   (\<not> (recoil_compensation (snapshot inp) \<and> lmb_pressed inp \<and>
       (\<not> require_ads (snapshot inp) \<or> ads_pressed inp)) \<longrightarrow>
      tick inp st = Inr (st\<lparr>fps := fps st + 1\<rparr>)) \<and>
   (recoil_compensation (snapshot inp) \<and> lmb_pressed inp \<and>
      (\<not> require_ads (snapshot inp) \<or> ads_pressed inp) \<and>
      (bloom_reduction (snapshot inp) \<longrightarrow> 0 \<le> bloom_intensity (snapshot inp)) \<longrightarrow>
      (\<exists>st' sent. tick inp st = Inr st' \<and> calls st' = calls st @ sent \<and>
         length sent = nat (max 1 (smoothing (snapshot inp))) \<and> sent \<noteq> []))"
proof (intro conjI impI)
  show p: "is_recoil_active (snapshot inp) (lmb_pressed inp) (ads_pressed inp) =
     (recoil_compensation (snapshot inp) \<and> lmb_pressed inp \<and>
      (\<not> require_ads (snapshot inp) \<or> ads_pressed inp))"
    by (auto simp: is_recoil_active_def)
  {
    assume "\<not> (recoil_compensation (snapshot inp) \<and> lmb_pressed inp \<and>
       (\<not> require_ads (snapshot inp) \<or> ads_pressed inp))"
    then have "\<not> is_recoil_active (snapshot inp) (lmb_pressed inp) (ads_pressed inp)"
      using p by simp
    then show "tick inp st = Inr (st\<lparr>fps := fps st + 1\<rparr>)" by (rule tick_idle)
  }
  {
    assume a: "recoil_compensation (snapshot inp) \<and> lmb_pressed inp \<and>
      (\<not> require_ads (snapshot inp) \<or> ads_pressed inp) \<and>
      (bloom_reduction (snapshot inp) \<longrightarrow> 0 \<le> bloom_intensity (snapshot inp))"
    then have act: "is_recoil_active (snapshot inp) (lmb_pressed inp) (ads_pressed inp)"
      using p by simp
    from a have bloom: "bloom_reduction (snapshot inp) \<longrightarrow> 0 \<le> bloom_intensity (snapshot inp)"
      by simp
    from tick_active [OF act bloom, of st] obtain st' sent x_moves where
      t: "tick inp st = Inr st'" "calls st' = calls st @ sent"
        "length x_moves = nat (max 1 (smoothing (snapshot inp)))" "map call_dx sent = x_moves"
      by (elim exE conjE) (rule that)
    from t(3,4) have "length sent = nat (max 1 (smoothing (snapshot inp)))"
      by (metis length_map)
    moreover from this have "sent \<noteq> []" by auto
    ultimately show "\<exists>st' sent. tick inp st = Inr st' \<and> calls st' = calls st @ sent \<and>
         length sent = nat (max 1 (smoothing (snapshot inp))) \<and> sent \<noteq> []"
      using t(1,2) by blast
  }
qed

theorem activation_predicate_witness:
  "(recoil_compensation default_config \<and> require_ads default_config \<and>
    \<not> bloom_reduction default_config \<and>
    (\<exists>st'. tick \<lparr>snapshot = default_config, lmb_pressed = True, ads_pressed = True,
                  entropy = 0\<rparr> (initial_state None) = Inr st' \<and>
           length (calls st') = 3)) \<and>
   (\<not> (recoil_compensation default_config \<and> True \<and> (\<not> require_ads default_config \<or> False)) \<and>
    tick \<lparr>snapshot = default_config, lmb_pressed = True, ads_pressed = False, entropy = 0\<rparr>
         (initial_state None) = Inr ((initial_state None)\<lparr>fps := 1\<rparr>))"
  using activation_predicate
      [of "\<lparr>snapshot = default_config, lmb_pressed = True, ads_pressed = True, entropy = 0\<rparr>"
          "initial_state None"]
    activation_predicate
      [of "\<lparr>snapshot = default_config, lmb_pressed = True, ads_pressed = False, entropy = 0\<rparr>"
          "initial_state None"]
  by (auto simp: default_config_def initial_state_def)

text \<open>
  Claim C3. With \<open>recoil_compensation\<close> set, \<open>require_ads\<close> unset, \<open>recoil_strength = 10\<close>,
  \<open>smoothing = 5\<close>, \<open>bloom_reduction\<close> unset and the primary button held, one iteration
  issues exactly five backend calls; their \<open>dx\<close> sum to 0, their \<open>dy\<close> sum to 10, and each
  \<open>dy\<close> is 2, hence not negative.
\<close>

theorem one_tick_end_to_end:
  assumes "recoil_compensation (snapshot inp)" and "\<not> require_ads (snapshot inp)"
    and "recoil_strength (snapshot inp) = 10" and "smoothing (snapshot inp) = 5"
    and "\<not> bloom_reduction (snapshot inp)" and "lmb_pressed inp"
  shows "\<exists>st' sent. tick inp st = Inr st' \<and> calls st' = calls st @ sent \<and>
           length sent = 5 \<and>
           sum_list (map call_dx sent) = 0 \<and> sum_list (map call_dy sent) = 10 \<and>
           (\<forall>c \<in> set sent. 0 \<le> call_dy c \<and> call_dy c = 2) \<and>
           map call_dx sent = [0, 0, 0, 0, 0] \<and> map call_dy sent = [2, 2, 2, 2, 2]"
proof -
  have act: "is_recoil_active (snapshot inp) (lmb_pressed inp) (ads_pressed inp)"
    using assms by (simp add: is_recoil_active_def)
  have bloom: "bloom_reduction (snapshot inp) \<longrightarrow> 0 \<le> bloom_intensity (snapshot inp)"
    using assms by simp
  from tick_active [OF act bloom, of st] obtain st' sent dx_total x_moves y_moves where
    t: "tick inp st = Inr st'" "calls st' = calls st @ sent"
    and dx: "if bloom_reduction (snapshot inp)
             then - bloom_intensity (snapshot inp) \<le> dx_total \<and>
                  dx_total \<le> bloom_intensity (snapshot inp)
             else dx_total = 0"
    and x: "distribute_movement dx_total (max 1 (smoothing (snapshot inp))) = Inr x_moves"
    and y: "distribute_movement (recoil_strength (snapshot inp))
              (max 1 (smoothing (snapshot inp))) = Inr y_moves"
    and m: "map call_dx sent = x_moves" "map call_dy sent = y_moves"
    by (elim exE conjE) (rule that)
  have "dx_total = 0" using dx assms by simp
  with x assms have xs: "x_moves = [0, 0, 0, 0, 0]"
    by (simp add: distribute_movement_closed eval_nat_numeral)
  from y assms have ys: "y_moves = [2, 2, 2, 2, 2]"
    by (simp add: distribute_movement_closed eval_nat_numeral)
  have "length (map call_dx sent) = 5" using m(1) xs by simp
  then have len: "length sent = 5" by simp
  have dy: "\<forall>c \<in> set sent. 0 \<le> call_dy c \<and> call_dy c = 2"
  proof
    fix c assume "c \<in> set sent"
    then have "call_dy c \<in> set (map call_dy sent)" by simp
    then show "0 \<le> call_dy c \<and> call_dy c = 2" using m(2) ys by simp
  qed
  show ?thesis
    using t m xs ys len dy by (intro exI [of _ st'] exI [of _ sent]) simp
qed

theorem one_tick_end_to_end_witness:
  "recoil_compensation (default_config\<lparr>require_ads := False, recoil_strength := 10, smoothing := 5\<rparr>) \<and>
   (\<exists>st'. tick \<lparr>snapshot = default_config\<lparr>require_ads := False, recoil_strength := 10,
                               smoothing := 5\<rparr>,
                 lmb_pressed = True, ads_pressed = False, entropy = 7\<rparr>
                (initial_state None) = Inr st' \<and>
          map call_dx (calls st') = [0, 0, 0, 0, 0] \<and>
          map call_dy (calls st') = [2, 2, 2, 2, 2])"
  using one_tick_end_to_end
      [of "\<lparr>snapshot = default_config\<lparr>require_ads := False, recoil_strength := 10,
                                      smoothing := 5\<rparr>,
             lmb_pressed = True, ads_pressed = False, entropy = 7\<rparr>" "initial_state None"]
  by (auto simp: default_config_def initial_state_def)

text \<open>
  Claim C9. On every iteration that moves the pointer, the number of steps is
  \<open>max(1, smoothing)\<close>, which is at least 1 whatever \<open>smoothing\<close> the snapshot holds:
  both calls of \<open>distribute_movement\<close> get this number, both plans have this length,
  and this many backend calls are issued.
\<close>

theorem step_count_clamped:
  assumes "is_recoil_active (snapshot inp) (lmb_pressed inp) (ads_pressed inp)"
    and "bloom_reduction (snapshot inp) \<longrightarrow> 0 \<le> bloom_intensity (snapshot inp)"
  shows "\<exists>st' sent dx_total x_moves y_moves.
           tick inp st = Inr st' \<and> calls st' = calls st @ sent \<and>
           1 \<le> max 1 (smoothing (snapshot inp)) \<and>
           distribute_movement (recoil_strength (snapshot inp))
             (max 1 (smoothing (snapshot inp))) = Inr y_moves \<and>
           distribute_movement dx_total (max 1 (smoothing (snapshot inp))) = Inr x_moves \<and>
           map call_dx sent = x_moves \<and> map call_dy sent = y_moves \<and>
           length x_moves = nat (max 1 (smoothing (snapshot inp))) \<and>
           length y_moves = nat (max 1 (smoothing (snapshot inp))) \<and>
           length sent = nat (max 1 (smoothing (snapshot inp))) \<and>
           1 \<le> length sent"
proof -
  from tick_active [OF assms, of st] obtain st' sent dx_total x_moves y_moves where
    t: "tick inp st = Inr st'" "calls st' = calls st @ sent"
    and x: "distribute_movement dx_total (max 1 (smoothing (snapshot inp))) = Inr x_moves"
    and y: "distribute_movement (recoil_strength (snapshot inp))
              (max 1 (smoothing (snapshot inp))) = Inr y_moves"
    and l: "length x_moves = nat (max 1 (smoothing (snapshot inp)))"
      "length y_moves = nat (max 1 (smoothing (snapshot inp)))"
    and m: "map call_dx sent = x_moves" "map call_dy sent = y_moves"
    by (elim exE conjE) (rule that)
  have "length (map call_dx sent) = nat (max 1 (smoothing (snapshot inp)))"
    using m(1) l(1) by simp
  then have len: "length sent = nat (max 1 (smoothing (snapshot inp)))" by simp
  then have "1 \<le> length sent" by simp
  then show ?thesis
    using t x y l m len by (intro exI [of _ st'] exI [of _ sent] exI [of _ dx_total]
        exI [of _ x_moves] exI [of _ y_moves]) simp
qed

theorem step_count_clamped_witness:
  "is_recoil_active (default_config\<lparr>smoothing := - 4\<rparr>) True True \<and>
   \<not> bloom_reduction (default_config\<lparr>smoothing := - 4\<rparr>) \<and>
   (\<exists>st'. tick \<lparr>snapshot = default_config\<lparr>smoothing := - 4\<rparr>, lmb_pressed = True,
                 ads_pressed = True, entropy = 0\<rparr> (initial_state None) = Inr st' \<and>
          length (calls st') = 1)"
  using step_count_clamped
      [of "\<lparr>snapshot = default_config\<lparr>smoothing := - 4\<rparr>, lmb_pressed = True,
             ads_pressed = True, entropy = 0\<rparr>" "initial_state None"]
  by (auto simp: default_config_def initial_state_def is_recoil_active_def)

section \<open>Properties of \<open>MakcuController.move\<close>\<close>

lemma move_disconnected:
  "\<not> connected self \<or> serial self = None \<Longrightarrow> move self x y = (False, self)"
  by (auto simp: move_def split: option.splits bool.splits)

text \<open>
  Claim C6, amended. Sending \<open>(0, 0)\<close> through the serial backend never writes: the
  controller, and with it the log of written bytes, is returned unchanged. It reports
  success exactly when the controller is connected and holds a \<open>Serial\<close> object, and
  failure otherwise.
\<close>

theorem move_zero:
  "move self 0 0 = (connected self \<and> serial self \<noteq> None, self)"
  by (auto simp: move_def split: option.splits bool.splits)

theorem move_zero_witness:
  "move (connected_controller []) 0 0 = (True, connected_controller []) \<and>
   move MakcuController_init 0 0 = (False, MakcuController_init)"
  using move_zero [of "connected_controller []"] move_zero [of MakcuController_init]
  by (simp add: connected_controller_def MakcuController_init_def)

text \<open>
  As the claim is stated, with success in every case, it fails on a controller that was
  never connected: the first guard of \<open>move\<close> returns \<open>False\<close> before the test for a
  zero motion is reached.
\<close>

theorem move_zero_counterexample:
  "\<not> fst (move MakcuController_init 0 0)"
  by (simp add: move_def MakcuController_init_def)

text \<open>
  Claim C10. For every \<open>(x, y)\<close>, \<open>(0, 0)\<close> included, \<open>move\<close> returns failure and leaves
  the controller (hence the bytes written) untouched when it is not connected or has
  no \<open>Serial\<close> object; so a zero motion succeeds only on a connected controller.
\<close>

theorem move_not_connected:
  "(\<not> connected self \<or> serial self = None \<longrightarrow> move self x y = (False, self)) \<and>
   (fst (move self 0 0) \<longrightarrow> connected self \<and> serial self \<noteq> None)"
  by (auto simp: move_def split: option.splits bool.splits)

theorem move_not_connected_witness:
  "\<not> connected MakcuController_init \<and> serial MakcuController_init = None \<and>
   move MakcuController_init 3 4 = (False, MakcuController_init) \<and>
   move MakcuController_init 0 0 = (False, MakcuController_init) \<and>
   fst (move (connected_controller []) 0 0) \<and>
   connected (connected_controller []) \<and> serial (connected_controller []) \<noteq> None"
proof -
  have h: "\<not> connected MakcuController_init \<or> serial MakcuController_init = None"
    by (simp add: MakcuController_init_def)
  have z: "fst (move (connected_controller []) 0 0)"
    by (simp add: move_def connected_controller_def)
  from move_not_connected [of MakcuController_init 3 4] h
  have a: "move MakcuController_init 3 4 = (False, MakcuController_init)" by blast
  from move_not_connected [of MakcuController_init 0 0] h
  have b: "move MakcuController_init 0 0 = (False, MakcuController_init)" by blast
  from move_not_connected [of "connected_controller []" 0 0] z
  have c: "connected (connected_controller []) \<and> serial (connected_controller []) \<noteq> None"
    by blast
  have h': "\<not> connected MakcuController_init \<and> serial MakcuController_init = None"
    by (simp add: MakcuController_init_def)
  from h' a b z c show ?thesis by blast
qed

section \<open>A failed write and the next iteration\<close>

lemma move_write_error:
  assumes "connected self" and "serial self = Some s" and "is_open s"
    and "pending s = WriteError # rest" and "x \<noteq> 0 \<or> y \<noteq> 0"
  shows "move self x y = (False, self\<lparr>serial := Some (s\<lparr>pending := rest\<rparr>), connected := False\<rparr>)"
  using assms by (auto simp: move_def serial_write_def)

lemma move_failed:
  "serial self \<noteq> None \<Longrightarrow> \<not> fst (move self x y) \<Longrightarrow> \<not> connected (snd (move self x y))"
  by (auto simp: move_def split: option.splits bool.splits prod.splits write_outcome.splits
      if_splits)

lemma move_keeps_serial:
  "serial self \<noteq> None \<Longrightarrow> serial (snd (move self x y)) \<noteq> None"
  by (auto simp: move_def split: option.splits bool.splits prod.splits write_outcome.splits
      if_splits)

lemma send_move_disconnected:
  assumes "send_move use_hw dx dy st = Inr st1" and "has_serial st"
  shows "\<exists>c. calls st1 = calls st @ [c] \<and> has_serial st1 \<and>
           (disconnected st \<or> (\<exists>dx' dy'. c = MakcuMove dx' dy' False) \<longrightarrow> disconnected st1)"
proof (cases use_hw)
  case False
  with assms have "st1 = st\<lparr>calls := calls st @ [Win32MouseEvent dx dy]\<rparr>"
    by (simp add: send_move_sw)
  with assms(2) show ?thesis by (simp add: disconnected_def has_serial_def)
next
  case True
  with assms obtain ctl where ctl: "mouse_controller st = Some ctl"
    by (auto simp: send_move_def split: option.splits)
  with assms(2) have ser: "serial ctl \<noteq> None" by (simp add: has_serial_def)
  let ?m = "move ctl dx dy"
  have st1: "st1 = st\<lparr>mouse_controller := Some (snd ?m),
                        calls := calls st @ [MakcuMove dx dy (fst ?m)],
                        activity_signals := activity_signals st + (if fst ?m then 1 else 0)\<rparr>"
    using assms True send_move_hw [OF ctl, of dx dy] by simp
  have "disconnected st1" if "disconnected st"
  proof -
    from that ctl have "\<not> connected ctl \<or> serial ctl = None"
      by (simp add: disconnected_def)
    then have "?m = (False, ctl)" by (rule move_disconnected)
    with st1 that ctl show ?thesis by (simp add: disconnected_def)
  qed
  moreover have "disconnected st1" if "\<not> fst ?m"
    using move_failed [OF ser that] st1 by (simp add: disconnected_def)
  moreover have "has_serial st1"
    using move_keeps_serial [OF ser, of dx dy] st1 by (simp add: has_serial_def)
  ultimately show ?thesis using st1 by auto
qed

lemma dispatch_disconnected:
  assumes "dispatch use_hw x_moves y_moves is st = Inr st'" and "has_serial st"
  shows "\<exists>sent. calls st' = calls st @ sent \<and> has_serial st' \<and>
           (disconnected st \<or> (\<exists>dx dy. MakcuMove dx dy False \<in> set sent) \<longrightarrow> disconnected st')"
  using assms
proof (induction "is" arbitrary: st)
  case Nil
  then show ?case by simp
next
  case (Cons i "is")
  from Cons.prems(1) obtain st1 where
    s: "send_move use_hw (x_moves ! i) (y_moves ! i) st = Inr st1"
    and d: "dispatch use_hw x_moves y_moves is st1 = Inr st'"
    by (auto simp: Let_def split: if_splits sum.splits)
  from send_move_disconnected [OF s Cons.prems(2)] obtain c where
    c: "calls st1 = calls st @ [c]" "has_serial st1"
      "disconnected st \<or> (\<exists>dx' dy'. c = MakcuMove dx' dy' False) \<longrightarrow> disconnected st1"
    by (elim exE conjE) (rule that)
  from Cons.IH [OF d c(2)] obtain sent where
    r: "calls st' = calls st1 @ sent" "has_serial st'"
      "disconnected st1 \<or> (\<exists>dx dy. MakcuMove dx dy False \<in> set sent) \<longrightarrow> disconnected st'"
    by (elim exE conjE) (rule that)
  have "calls st' = calls st @ (c # sent)" using c(1) r(1) by simp
  moreover have "disconnected st \<or> (\<exists>dx dy. MakcuMove dx dy False \<in> set (c # sent))
                   \<longrightarrow> disconnected st'"
    using c(3) r(3) by auto
  ultimately show ?case using r(2) by blast
qed

lemma tick_disconnected:
  assumes "tick inp st = Inr st'" and "calls st' = calls st @ sent"
    and "MakcuMove dx dy False \<in> set sent" and "has_serial st"
  shows "disconnected st'"
proof (cases "is_recoil_active (snapshot inp) (lmb_pressed inp) (ads_pressed inp)")
  case False
  from tick_idle [OF False, of st] assms(1,2) have "sent = []" by auto
  with assms(3) show ?thesis by simp
next
  case True
  let ?st = "st\<lparr>fps := fps st + 1\<rparr>"
  from assms(1) True obtain use_hw x_moves y_moves "is" where
    d: "dispatch use_hw x_moves y_moves is ?st = Inr st'"
    by (auto simp: tick_def Let_def split: sum.splits if_splits)
  have "has_serial ?st" using assms(4) by (simp add: has_serial_def)
  from dispatch_disconnected [OF d this] obtain sent' where
    r: "calls st' = calls ?st @ sent'"
      "disconnected ?st \<or> (\<exists>dx dy. MakcuMove dx dy False \<in> set sent') \<longrightarrow> disconnected st'"
    by (elim exE conjE) (rule that)
  from r(1) assms(2) have "sent' = sent" by simp
  with r(2) assms(3) show ?thesis by blast
qed

lemma disconnected_no_hardware:
  "disconnected st \<Longrightarrow> \<not> use_hardware cfg st"
  by (auto simp: disconnected_def use_hardware_def split: option.splits)

text \<open>
  Claim C5. When a write through the serial backend raises while the controller is
  connected, \<open>move\<close> lowers the \<open>connected\<close> flag and returns \<open>False\<close>; exactly one
  write was attempted (one scripted outcome is consumed) and nothing is logged as
  written. In the loop: once a hardware send of an iteration has returned \<open>False\<close>, the
  state that iteration leaves makes the backend selection of the next iteration false
  whatever the snapshot says, and an active next iteration sends all its steps through
  \<open>win32api.mouse_event\<close>, leaving the controller alone.
\<close>

theorem write_failure_falls_back:
  "(connected self \<and> serial self = Some s \<and> is_open s \<and> pending s = WriteError # rest \<and>
    (x \<noteq> 0 \<or> y \<noteq> 0) \<longrightarrow>
      move self x y =
        (False, self\<lparr>serial := Some (s\<lparr>pending := rest\<rparr>), connected := False\<rparr>) \<and>
      (mouse_controller st0 = Some self \<longrightarrow>
         (\<exists>st1. send_move True x y st0 = Inr st1 \<and>
            calls st1 = calls st0 @ [MakcuMove x y False] \<and>
            mouse_controller st1 =
              Some (self\<lparr>serial := Some (s\<lparr>pending := rest\<rparr>), connected := False\<rparr>) \<and>
            activity_signals st1 = activity_signals st0))) \<and>
   (has_serial st \<and> tick inp st = Inr st' \<and> calls st' = calls st @ sent \<and>
    MakcuMove dx dy False \<in> set sent \<longrightarrow>
      \<not> use_hardware (snapshot inp') st' \<and>
      (is_recoil_active (snapshot inp') (lmb_pressed inp') (ads_pressed inp') \<and>
       (bloom_reduction (snapshot inp') \<longrightarrow> 0 \<le> bloom_intensity (snapshot inp')) \<longrightarrow>
         (\<exists>st'' x_moves y_moves.
            tick inp' st' = Inr st'' \<and> recoil_loop [inp, inp'] st = Inr st'' \<and>
            calls st'' = calls st' @ map2 Win32MouseEvent x_moves y_moves \<and>
            length x_moves = nat (max 1 (smoothing (snapshot inp'))) \<and>
            length y_moves = nat (max 1 (smoothing (snapshot inp'))) \<and>
            mouse_controller st'' = mouse_controller st')))"
proof (intro conjI impI)
  assume "connected self \<and> serial self = Some s \<and> is_open s \<and>
          pending s = WriteError # rest \<and> (x \<noteq> 0 \<or> y \<noteq> 0)"
  then show m: "move self x y =
        (False, self\<lparr>serial := Some (s\<lparr>pending := rest\<rparr>), connected := False\<rparr>)"
    by (intro move_write_error) simp_all
  assume "mouse_controller st0 = Some self"
  from send_move_hw [OF this, of x y] m
  show "\<exists>st1. send_move True x y st0 = Inr st1 \<and>
            calls st1 = calls st0 @ [MakcuMove x y False] \<and>
            mouse_controller st1 =
              Some (self\<lparr>serial := Some (s\<lparr>pending := rest\<rparr>), connected := False\<rparr>) \<and>
            activity_signals st1 = activity_signals st0"
    by simp
next
  assume h: "has_serial st \<and> tick inp st = Inr st' \<and> calls st' = calls st @ sent \<and>
             MakcuMove dx dy False \<in> set sent"
  then have "disconnected st'" by (intro tick_disconnected [of inp st st' sent dx dy]) simp_all
  then have u: "\<not> use_hardware (snapshot inp') st'" by (rule disconnected_no_hardware)
  then show "\<not> use_hardware (snapshot inp') st'" .
  assume a: "is_recoil_active (snapshot inp') (lmb_pressed inp') (ads_pressed inp') \<and>
          (bloom_reduction (snapshot inp') \<longrightarrow> 0 \<le> bloom_intensity (snapshot inp'))"
  then have act: "is_recoil_active (snapshot inp') (lmb_pressed inp') (ads_pressed inp')"
    and bloom: "bloom_reduction (snapshot inp') \<longrightarrow> 0 \<le> bloom_intensity (snapshot inp')"
    by simp_all
  from tick_active [OF act bloom, of st'] obtain st'' sent2 x_moves y_moves where
    t: "tick inp' st' = Inr st''" "calls st'' = calls st' @ sent2"
    and l: "length x_moves = nat (max 1 (smoothing (snapshot inp')))"
      "length y_moves = nat (max 1 (smoothing (snapshot inp')))"
    and w: "\<not> use_hardware (snapshot inp') st' \<longrightarrow>
              mouse_controller st'' = mouse_controller st' \<and>
              sent2 = map2 Win32MouseEvent x_moves y_moves"
    by (elim exE conjE) (rule that)
  have "recoil_loop [inp, inp'] st = Inr st''" using h t(1) by simp
  then show "\<exists>st'' x_moves y_moves.
            tick inp' st' = Inr st'' \<and> recoil_loop [inp, inp'] st = Inr st'' \<and>
            calls st'' = calls st' @ map2 Win32MouseEvent x_moves y_moves \<and>
            length x_moves = nat (max 1 (smoothing (snapshot inp'))) \<and>
            length y_moves = nat (max 1 (smoothing (snapshot inp'))) \<and>
            mouse_controller st'' = mouse_controller st'"
    using t l w u by (intro exI [of _ st''] exI [of _ x_moves] exI [of _ y_moves]) simp
qed

theorem write_failure_falls_back_witness:
  "move (connected_controller [WriteError]) 0 4 =
     (False, (connected_controller [])\<lparr>connected := False\<rparr>) \<and>
   tick \<lparr>snapshot = default_config\<lparr>use_makcu := True\<rparr>, lmb_pressed = True,
              ads_pressed = True, entropy = 0\<rparr>
        (initial_state (Some (connected_controller [WriteError]))) =
     Inr \<lparr>fps = 1, mouse_controller = Some ((connected_controller [])\<lparr>connected := False\<rparr>),
              calls = [MakcuMove 0 4 False, MakcuMove 0 4 False, MakcuMove 0 3 False],
              activity_signals = 0\<rparr> \<and>
   \<not> use_hardware (default_config\<lparr>use_makcu := True\<rparr>)
        \<lparr>fps = 1, mouse_controller = Some ((connected_controller [])\<lparr>connected := False\<rparr>),
              calls = [MakcuMove 0 4 False, MakcuMove 0 4 False, MakcuMove 0 3 False],
              activity_signals = 0\<rparr> \<and>
   (\<exists>st2 x_moves y_moves.
      tick \<lparr>snapshot = default_config\<lparr>use_makcu := True\<rparr>, lmb_pressed = True,
              ads_pressed = True, entropy = 0\<rparr>
           \<lparr>fps = 1, mouse_controller = Some ((connected_controller [])\<lparr>connected := False\<rparr>),
              calls = [MakcuMove 0 4 False, MakcuMove 0 4 False, MakcuMove 0 3 False],
              activity_signals = 0\<rparr> = Inr st2 \<and>
      calls st2 = [MakcuMove 0 4 False, MakcuMove 0 4 False, MakcuMove 0 3 False] @
                  map2 Win32MouseEvent x_moves y_moves \<and>
      length x_moves = 3 \<and> length y_moves = 3)"
proof -
  let ?inp = "\<lparr>snapshot = default_config\<lparr>use_makcu := True\<rparr>, lmb_pressed = True,
              ads_pressed = True, entropy = 0\<rparr>"
  let ?st0 = "(initial_state (Some (connected_controller [WriteError])))"
  let ?st1 = "\<lparr>fps = 1, mouse_controller = Some ((connected_controller [])\<lparr>connected := False\<rparr>),
              calls = [MakcuMove 0 4 False, MakcuMove 0 4 False, MakcuMove 0 3 False],
              activity_signals = 0\<rparr>"
  let ?s = "\<lparr>device = ''COM3'', is_open = True, baudrate = 4000000, timeout_ms = 1,
             write_timeout_ms = 1, written = [], pending = [WriteError], in_waiting = []\<rparr>"
  have t: "tick ?inp ?st0 = Inr ?st1" by code_simp
  have p1: "connected (connected_controller [WriteError]) \<and>
            serial (connected_controller [WriteError]) = Some ?s \<and> is_open ?s \<and>
            pending ?s = WriteError # [] \<and> ((0::int) \<noteq> 0 \<or> (4::int) \<noteq> 0)"
    by (simp add: connected_controller_def)
  have p2: "has_serial ?st0 \<and> tick ?inp ?st0 = Inr ?st1 \<and>
            calls ?st1 = calls ?st0 @ [MakcuMove 0 4 False, MakcuMove 0 4 False,
                                       MakcuMove 0 3 False] \<and>
            MakcuMove 0 4 False \<in> set [MakcuMove 0 4 False, MakcuMove 0 4 False,
                                       MakcuMove 0 3 False]"
    using t by (simp add: has_serial_def initial_state_def connected_controller_def)
  have p3: "is_recoil_active (snapshot ?inp) (lmb_pressed ?inp) (ads_pressed ?inp) \<and>
            (bloom_reduction (snapshot ?inp) \<longrightarrow> 0 \<le> bloom_intensity (snapshot ?inp))"
    by (simp add: is_recoil_active_def default_config_def)
  note inst = write_failure_falls_back
    [where self = "connected_controller [WriteError]" and s = ?s and rest = "[]"
       and x = 0 and y = 4 and st = ?st0 and inp = ?inp and st' = ?st1
       and sent = "[MakcuMove 0 4 False, MakcuMove 0 4 False, MakcuMove 0 3 False]"
       and dx = 0 and dy = 4 and inp' = ?inp]
  from inst p1 have m: "move (connected_controller [WriteError]) 0 4 =
      (False, (connected_controller [WriteError])\<lparr>serial := Some (?s\<lparr>pending := []\<rparr>),
                                                   connected := False\<rparr>)"
    by blast
  have e: "(connected_controller [WriteError])\<lparr>serial := Some (?s\<lparr>pending := []\<rparr>),
                                                connected := False\<rparr>
           = (connected_controller [])\<lparr>connected := False\<rparr>"
    by (simp add: connected_controller_def)
  from inst p2 have u: "\<not> use_hardware (snapshot ?inp) ?st1" by blast
  from inst p2 p3 have n: "\<exists>st2 x_moves y_moves.
            tick ?inp ?st1 = Inr st2 \<and>
            calls st2 = calls ?st1 @ map2 Win32MouseEvent x_moves y_moves \<and>
            length x_moves = nat (max 1 (smoothing (snapshot ?inp))) \<and>
            length y_moves = nat (max 1 (smoothing (snapshot ?inp))) \<and>
            mouse_controller st2 = mouse_controller ?st1"
    by blast
  have k: "nat (max 1 (smoothing (snapshot ?inp))) = 3" by (simp add: default_config_def)
  from n obtain st2 x_moves y_moves where
    q: "tick ?inp ?st1 = Inr st2"
      "calls st2 = calls ?st1 @ map2 Win32MouseEvent x_moves y_moves"
      "length x_moves = nat (max 1 (smoothing (snapshot ?inp)))"
      "length y_moves = nat (max 1 (smoothing (snapshot ?inp)))"
    by (elim exE conjE) (rule that)
  have n': "\<exists>st2 x_moves y_moves.
      tick ?inp ?st1 = Inr st2 \<and>
      calls st2 = [MakcuMove 0 4 False, MakcuMove 0 4 False, MakcuMove 0 3 False] @
                  map2 Win32MouseEvent x_moves y_moves \<and>
      length x_moves = 3 \<and> length y_moves = 3"
    using q k by (intro exI [of _ st2] exI [of _ x_moves] exI [of _ y_moves]) simp
  from m e t u n' show ?thesis by simp
qed

section \<open>Properties of \<open>MakcuController.connect\<close>\<close>

lemma close_if_open_fields [simp]:
  "connected (close_if_open self) = connected self"
  "port_name (close_if_open self) = port_name self"
  by (simp_all add: close_if_open_def split: option.splits)

lemma finalize_fst:
  "fst (finalize_connection self s dev profile) = fst (finalize_connection self0 s dev profile)"
  by (simp add: finalize_connection_def Let_def split: prod.splits)

lemma finalize_connected:
  "connected (snd (finalize_connection self s dev profile)) =
     (fst (finalize_connection self s dev profile) \<or> connected self)"
  by (simp add: finalize_connection_def Let_def split: prod.splits)

lemma try_candidates_fst:
  "fst (try_candidates host cs self) = list_ex (candidate_succeeds host) cs"
proof (induction cs arbitrary: self)
  case Nil
  then show ?case by simp
next
  case (Cons c cs)
  obtain dev profile_name profile where c: "c = (dev, profile_name, profile)"
    by (cases c) auto
  show ?case
  proof (cases "handshake dev profile (host dev profile_name)")
    case OpenRaised
    then show ?thesis using Cons.IH c by (simp add: candidate_succeeds_def)
  next
    case (WriteRaised s)
    then show ?thesis using Cons.IH c by (simp add: candidate_succeeds_def)
  next
    case (Replied response s)
    show ?thesis
    proof (cases "keyword_match profile response")
      case False
      then show ?thesis using Replied Cons.IH c by (simp add: candidate_succeeds_def)
    next
      case True
      obtain ok self' where f: "finalize_connection (self\<lparr>serial := Some s\<rparr>) s dev profile = (ok, self')"
        by (cases "finalize_connection (self\<lparr>serial := Some s\<rparr>) s dev profile") auto
      have ok: "fst (finalize_connection MakcuController_init s dev profile) = ok"
        using finalize_fst [of MakcuController_init s dev profile "self\<lparr>serial := Some s\<rparr>"] f
        by simp
      show ?thesis
        using Replied True f ok Cons.IH c by (cases ok) (simp_all add: candidate_succeeds_def)
    qed
  qed
qed

lemma try_candidates_connected:
  "connected (snd (try_candidates host cs self)) =
     (fst (try_candidates host cs self) \<or> connected self)"
proof (induction cs arbitrary: self)
  case Nil
  then show ?case by simp
next
  case (Cons c cs)
  obtain dev profile_name profile where c: "c = (dev, profile_name, profile)"
    by (cases c) auto
  show ?case
  proof (cases "handshake dev profile (host dev profile_name)")
    case OpenRaised
    then show ?thesis using Cons.IH c by simp
  next
    case (WriteRaised s)
    then show ?thesis using Cons.IH c by simp
  next
    case (Replied response s)
    show ?thesis
    proof (cases "keyword_match profile response")
      case False
      then show ?thesis using Replied Cons.IH c by simp
    next
      case True
      obtain ok self' where f: "finalize_connection (self\<lparr>serial := Some s\<rparr>) s dev profile = (ok, self')"
        by (cases "finalize_connection (self\<lparr>serial := Some s\<rparr>) s dev profile") auto
      have k: "connected self' = (ok \<or> connected self)"
        using finalize_connected [of "self\<lparr>serial := Some s\<rparr>" s dev profile] f by simp
      show ?thesis
        using Replied True f k Cons.IH c by (cases ok) simp_all
    qed
  qed
qed

lemma try_candidates_no_match:
  assumes "\<forall>c \<in> set cs. \<not> candidate_matches host c"
  shows "\<exists>self'. try_candidates host cs self = (False, self') \<and>
           connected self' = connected self \<and> port_name self' = port_name self"
  using assms
proof (induction cs arbitrary: self)
  case Nil
  then show ?case by simp
next
  case (Cons c cs)
  obtain dev profile_name profile where c: "c = (dev, profile_name, profile)"
    by (cases c) auto
  from Cons.prems have rest: "\<forall>c \<in> set cs. \<not> candidate_matches host c" by simp
  from Cons.prems c have nm: "\<not> candidate_matches host (dev, profile_name, profile)" by simp
  show ?case
  proof (cases "handshake dev profile (host dev profile_name)")
    case OpenRaised
    then show ?thesis using Cons.IH [OF rest, of "close_if_open self"] c by simp
  next
    case (WriteRaised s)
    then show ?thesis
      using Cons.IH [OF rest, of "close_if_open (self\<lparr>serial := Some s\<rparr>)"] c by simp
  next
    case (Replied response s)
    with nm have "\<not> keyword_match profile response" by (simp add: candidate_matches_def)
    then show ?thesis
      using Replied Cons.IH [OF rest, of "self\<lparr>serial := Some (serial_close s)\<rparr>"] c by simp
  qed
qed

text \<open>
  Claim C7. When no enumerated (port, profile) candidate gets a handshake response that
  holds an accepted keyword, \<open>connect\<close> returns \<open>False\<close> and leaves the controller
  disconnected, with no port name. An exception raised while opening a candidate's port
  or while writing its handshake is swallowed: the search goes on with the remaining
  candidates. \<open>False\<close> is returned only when the list is exhausted: the result is
  \<open>True\<close> exactly when some candidate matches and is finalized, and the controller is
  then, and only then, connected.
\<close>

theorem connect_exhaustion:
  "(HAVE_PYSERIAL \<and> (\<forall>c \<in> set (candidates ports). \<not> candidate_matches host c) \<longrightarrow>
      (\<exists>self'. connect HAVE_PYSERIAL ports host self = (False, self') \<and>
         \<not> connected self' \<and> port_name self' = None)) \<and>
   (handshake dev profile (host dev profile_name) = OpenRaised \<longrightarrow>
      try_candidates host ((dev, profile_name, profile) # rest) self =
        try_candidates host rest (close_if_open self)) \<and>
   (handshake dev profile (host dev profile_name) = WriteRaised s \<longrightarrow>
      try_candidates host ((dev, profile_name, profile) # rest) self =
        try_candidates host rest (close_if_open (self\<lparr>serial := Some s\<rparr>))) \<and>
   (HAVE_PYSERIAL \<longrightarrow>
      fst (connect HAVE_PYSERIAL ports host self) =
        list_ex (candidate_succeeds host) (candidates ports) \<and>
      connected (snd (connect HAVE_PYSERIAL ports host self)) =
        fst (connect HAVE_PYSERIAL ports host self))"
proof (intro conjI impI)
  assume h: "HAVE_PYSERIAL \<and> (\<forall>c \<in> set (candidates ports). \<not> candidate_matches host c)"
  then have "\<forall>c \<in> set (candidates ports). \<not> candidate_matches host c" by simp
  from try_candidates_no_match [OF this, of "close self"] obtain self' where
    "try_candidates host (candidates ports) (close self) = (False, self')"
    "connected self' = connected (close self)" "port_name self' = port_name (close self)"
    by (elim exE conjE) (rule that)
  then show "\<exists>self'. connect HAVE_PYSERIAL ports host self = (False, self') \<and>
         \<not> connected self' \<and> port_name self' = None"
    using h by (intro exI [of _ self']) (simp add: connect_def close_def)
next
  assume "handshake dev profile (host dev profile_name) = OpenRaised"
  then show "try_candidates host ((dev, profile_name, profile) # rest) self =
        try_candidates host rest (close_if_open self)"
    by simp
next
  assume "handshake dev profile (host dev profile_name) = WriteRaised s"
  then show "try_candidates host ((dev, profile_name, profile) # rest) self =
        try_candidates host rest (close_if_open (self\<lparr>serial := Some s\<rparr>))"
    by simp
next
  assume h: HAVE_PYSERIAL
  then show f: "fst (connect HAVE_PYSERIAL ports host self) =
        list_ex (candidate_succeeds host) (candidates ports)"
    by (simp add: connect_def try_candidates_fst)
  have "\<not> connected (close self)" by (simp add: close_def)
  then show "connected (snd (connect HAVE_PYSERIAL ports host self)) =
        fst (connect HAVE_PYSERIAL ports host self)"
    using h try_candidates_connected [of host "candidates ports" "close self"]
    by (simp add: connect_def)
qed

theorem connect_exhaustion_witness:
  "list_all (\<lambda>c. \<not> candidate_matches silent_host c) (candidates [''COM3'', ''COM4'']) \<and>
   \<not> fst (connect True [''COM3'', ''COM4''] silent_host (connected_controller [])) \<and>
   \<not> connected (snd (connect True [''COM3'', ''COM4''] silent_host (connected_controller []))) \<and>
   port_name (snd (connect True [''COM3'', ''COM4''] silent_host (connected_controller [])))
     = None \<and>
   handshake ''COM3'' (snd (hd DEVICE_PROFILES)) (silent_host ''COM3'' ''makcu'') = OpenRaised \<and>
   try_candidates silent_host [(''COM3'', ''makcu'', snd (hd DEVICE_PROFILES))]
       MakcuController_init
     = try_candidates silent_host [] (close_if_open MakcuController_init) \<and>
   handshake ''COM3'' (snd (last DEVICE_PROFILES)) (silent_host ''COM3'' ''otherbox'')
     = WriteRaised \<lparr>device = ''COM3'', is_open = True, baudrate = 115200, timeout_ms = 500,
                     write_timeout_ms = 100, written = [], pending = [], in_waiting = []\<rparr> \<and>
   \<not> fst (try_candidates silent_host [(''COM3'', ''otherbox'', snd (last DEVICE_PROFILES))]
           MakcuController_init) \<and>
   \<not> list_ex (candidate_succeeds silent_host) (candidates [''COM3'', ''COM4''])"
proof -
  let ?ports = "[''COM3'', ''COM4'']"
  let ?s = "\<lparr>device = ''COM3'', is_open = True, baudrate = 115200, timeout_ms = 500,
             write_timeout_ms = 100, written = [], pending = [], in_waiting = []\<rparr>"
  have la: "list_all (\<lambda>c. \<not> candidate_matches silent_host c) (candidates ?ports)"
    by code_simp
  then have nm: "\<forall>c \<in> set (candidates ?ports). \<not> candidate_matches silent_host c"
    by (simp only: list_all_iff)
  have o: "handshake ''COM3'' (snd (hd DEVICE_PROFILES)) (silent_host ''COM3'' ''makcu'')
             = OpenRaised"
    by code_simp
  have w: "handshake ''COM3'' (snd (last DEVICE_PROFILES)) (silent_host ''COM3'' ''otherbox'')
             = WriteRaised ?s"
    by code_simp
  have ns: "\<not> list_ex (candidate_succeeds silent_host) (candidates ?ports)"
    by code_simp
  note inst1 = connect_exhaustion
    [where HAVE_PYSERIAL = True and ports = ?ports and host = silent_host
       and self = "connected_controller []" and dev = "''COM3''"
       and profile = "snd (hd DEVICE_PROFILES)" and profile_name = "''makcu''"
       and rest = "[]"]
  note inst2 = connect_exhaustion
    [where host = silent_host and self = MakcuController_init and dev = "''COM3''"
       and profile = "snd (hd DEVICE_PROFILES)" and profile_name = "''makcu''"
       and rest = "[]"]
  note inst3 = connect_exhaustion
    [where host = silent_host and self = MakcuController_init and dev = "''COM3''"
       and profile = "snd (last DEVICE_PROFILES)" and profile_name = "''otherbox''"
       and rest = "[]" and s = ?s]
  from inst1 nm obtain self' where
    c: "connect True ?ports silent_host (connected_controller []) = (False, self')"
      "\<not> connected self'" "port_name self' = None"
    by blast
  from inst2 o have t1: "try_candidates silent_host [(''COM3'', ''makcu'', snd (hd DEVICE_PROFILES))]
       MakcuController_init
     = try_candidates silent_host [] (close_if_open MakcuController_init)"
    by blast
  from inst3 w have "try_candidates silent_host
       [(''COM3'', ''otherbox'', snd (last DEVICE_PROFILES))] MakcuController_init
     = try_candidates silent_host []
         (close_if_open (MakcuController_init\<lparr>serial := Some ?s\<rparr>))"
    by blast
  then have t2: "\<not> fst (try_candidates silent_host
       [(''COM3'', ''otherbox'', snd (last DEVICE_PROFILES))] MakcuController_init)"
    by (simp only: try_candidates.simps fst_conv) simp
  from la c o t1 w t2 ns show ?thesis by simp
qed

section \<open>Properties of \<open>Config.load\<close>\<close>

lemma dict_of_insert:
  "key \<noteq> k \<Longrightarrow> dict_of (front @ (k, v) # rear) key = dict_of (front @ rear) key"
  by (simp add: dict_of_def map_add_def split: option.splits)

lemma dict_of_inserted:
  "dict_of (front @ (k, v) # rear) k =
     (case dict_of rear k of Some later \<Rightarrow> Some later | None \<Rightarrow> Some v)"
  by (simp add: dict_of_def map_add_def split: option.splits)

lemma DEFAULTS_smoothing: "DEFAULTS ''smoothing'' = Some (JInt 3)"
  by (simp add: DEFAULTS_def)

text \<open>
  Claim C8, amended. \<open>load\<close> merges the stored object over \<open>DEFAULTS\<close>. A document (a
  JSON object) without the key \<open>smoothing\<close> yields \<open>smoothing = 3\<close>. An entry under a key
  that is not one of the defaults is kept in the loaded dictionary, with the value the
  document stores last under that key, and changes the value of no other key: every
  known key keeps the value the document stores for it, or its default when the
  document has none. A file that is absent, that cannot be opened or read
  (\<open>IOError\<close>), or whose text is not JSON (\<open>JSONDecodeError\<close>) yields \<open>DEFAULTS\<close> itself.
\<close>

theorem load_merges_over_defaults:
  "(''smoothing'' \<notin> fst ` set kvs \<longrightarrow>
      (\<exists>cfg. load (Document (JObject kvs)) = Inr cfg \<and> cfg ''smoothing'' = Some (JInt 3))) \<and>
   (k \<notin> dom DEFAULTS \<longrightarrow>
      (\<exists>cfg cfg'.
         load (Document (JObject (front @ rear))) = Inr cfg \<and>
         load (Document (JObject (front @ (k, v) # rear))) = Inr cfg' \<and>
         cfg' k = (case dict_of rear k of Some later \<Rightarrow> Some later | None \<Rightarrow> Some v) \<and>
         k \<in> dom cfg' \<and>
         (\<forall>key. key \<noteq> k \<longrightarrow> cfg' key = cfg key) \<and>
         (\<forall>key \<in> dom DEFAULTS.
            cfg' key = (case dict_of (front @ rear) key of
                          Some stored \<Rightarrow> Some stored
                        | None \<Rightarrow> DEFAULTS key)))) \<and>
   (doc \<in> {NoFile, Unreadable IOError, Unreadable JSONDecodeError} \<longrightarrow>
      load doc = Inr DEFAULTS)"
proof (intro conjI impI)
  assume "''smoothing'' \<notin> fst ` set kvs"
  then have "dict_of kvs ''smoothing'' = None"
    by (simp add: dict_of_def map_of_eq_None_iff)
  then have "(DEFAULTS ++ dict_of kvs) ''smoothing'' = Some (JInt 3)"
    by (simp add: map_add_def DEFAULTS_smoothing)
  then show "\<exists>cfg. load (Document (JObject kvs)) = Inr cfg \<and> cfg ''smoothing'' = Some (JInt 3)"
    by simp
next
  assume k: "k \<notin> dom DEFAULTS"
  let ?cfg = "DEFAULTS ++ dict_of (front @ rear)"
  let ?cfg' = "DEFAULTS ++ dict_of (front @ (k, v) # rear)"
  have kept: "?cfg' k = (case dict_of rear k of Some later \<Rightarrow> Some later | None \<Rightarrow> Some v)"
    by (simp add: map_add_def dict_of_inserted split: option.splits)
  have indom: "k \<in> dom ?cfg'"
  proof -
    from kept have "?cfg' k \<noteq> None" by (cases "dict_of rear k") simp_all
    then show ?thesis unfolding domIff .
  qed
  have same: "\<forall>key. key \<noteq> k \<longrightarrow> ?cfg' key = ?cfg key"
    by (simp add: map_add_def dict_of_insert)
  have known: "\<forall>key \<in> dom DEFAULTS.
            ?cfg' key = (case dict_of (front @ rear) key of
                          Some stored \<Rightarrow> Some stored
                        | None \<Rightarrow> DEFAULTS key)"
  proof
    fix key assume "key \<in> dom DEFAULTS"
    with k have "key \<noteq> k" by auto
    then have "?cfg' key = ?cfg key" using same by simp
    then show "?cfg' key = (case dict_of (front @ rear) key of
                          Some stored \<Rightarrow> Some stored
                        | None \<Rightarrow> DEFAULTS key)"
      by (simp add: map_add_def split: option.splits)
  qed
  show "\<exists>cfg cfg'.
         load (Document (JObject (front @ rear))) = Inr cfg \<and>
         load (Document (JObject (front @ (k, v) # rear))) = Inr cfg' \<and>
         cfg' k = (case dict_of rear k of Some later \<Rightarrow> Some later | None \<Rightarrow> Some v) \<and>
         k \<in> dom cfg' \<and>
         (\<forall>key. key \<noteq> k \<longrightarrow> cfg' key = cfg key) \<and>
         (\<forall>key \<in> dom DEFAULTS.
            cfg' key = (case dict_of (front @ rear) key of
                          Some stored \<Rightarrow> Some stored
                        | None \<Rightarrow> DEFAULTS key))"
    using kept indom same known by (intro exI [of _ ?cfg] exI [of _ ?cfg']) simp
next
  assume "doc \<in> {NoFile, Unreadable IOError, Unreadable JSONDecodeError}"
  then show "load doc = Inr DEFAULTS" by auto
qed

theorem load_merges_over_defaults_witness:
  "''smoothing'' \<notin> fst ` set [(''recoil_strength'', JInt 15)] \<and>
   (\<exists>cfg. load (Document (JObject [(''recoil_strength'', JInt 15)])) = Inr cfg \<and>
      cfg ''smoothing'' = Some (JInt 3)) \<and>
   ''theme'' \<notin> dom DEFAULTS \<and>
   (\<exists>cfg'. load (Document (JObject [(''smoothing'', JInt 7), (''theme'', JStr ''dark'')]))
             = Inr cfg' \<and>
      cfg' ''theme'' = Some (JStr ''dark'') \<and>
      cfg' ''smoothing'' = Some (JInt 7) \<and> cfg' ''recoil_strength'' = Some (JInt 11)) \<and>
   Unreadable JSONDecodeError \<in> {NoFile, Unreadable IOError, Unreadable JSONDecodeError} \<and>
   load (Unreadable JSONDecodeError) = Inr DEFAULTS"
proof -
  have a: "''smoothing'' \<notin> fst ` set [(''recoil_strength'', JInt 15)]" by simp
  have b: "''theme'' \<notin> dom DEFAULTS"
    by (simp add: DEFAULTS_def dom_map_of_conv_image_fst)
  have c: "Unreadable JSONDecodeError \<in> {NoFile, Unreadable IOError, Unreadable JSONDecodeError}"
    by simp
  have d: "''smoothing'' \<in> dom DEFAULTS" "''recoil_strength'' \<in> dom DEFAULTS"
    by (simp_all add: DEFAULTS_def dom_map_of_conv_image_fst)
  note inst1 = load_merges_over_defaults
    [where kvs = "[(''recoil_strength'', JInt 15)]" and k = "''theme''"
       and front = "[(''smoothing'', JInt 7)]" and rear = "[]" and v = "JStr ''dark''"
       and doc = "Unreadable JSONDecodeError"]
  from inst1 a have r1: "\<exists>cfg. load (Document (JObject [(''recoil_strength'', JInt 15)])) = Inr cfg \<and>
      cfg ''smoothing'' = Some (JInt 3)"
    by blast
  from inst1 b obtain cfg' where
    l: "load (Document (JObject ([(''smoothing'', JInt 7)] @ (''theme'', JStr ''dark'') # [])))
          = Inr cfg'"
    and kp: "cfg' ''theme'' = (case dict_of [] ''theme'' of
                                 Some later \<Rightarrow> Some later
                               | None \<Rightarrow> Some (JStr ''dark''))"
    and kn: "\<forall>key \<in> dom DEFAULTS.
            cfg' key = (case dict_of ([(''smoothing'', JInt 7)] @ []) key of
                          Some stored \<Rightarrow> Some stored
                        | None \<Rightarrow> DEFAULTS key)"
    by blast
  from kn d have "cfg' ''smoothing'' = Some (JInt 7)" "cfg' ''recoil_strength'' = Some (JInt 11)"
    by (simp_all add: dict_of_def DEFAULTS_def)
  moreover from kp have "cfg' ''theme'' = Some (JStr ''dark'')" by (simp add: dict_of_def)
  ultimately have r2: "\<exists>cfg'. load (Document (JObject [(''smoothing'', JInt 7),
                                                    (''theme'', JStr ''dark'')])) = Inr cfg' \<and>
      cfg' ''theme'' = Some (JStr ''dark'') \<and>
      cfg' ''smoothing'' = Some (JInt 7) \<and> cfg' ''recoil_strength'' = Some (JInt 11)"
    using l by simp
  from inst1 c have r3: "load (Unreadable JSONDecodeError) = Inr DEFAULTS" by blast
  from a r1 b r2 c r3 show ?thesis by blast
qed

text \<open>
  As the claim is stated it fails in two ways. A file that is damaged need not raise
  \<open>JSONDecodeError\<close>: bytes that do not decode raise \<open>UnicodeDecodeError\<close> and a
  well-formed document that is not an object raises \<open>TypeError\<close>, and both leave \<open>load\<close>
  instead of giving the defaults. And an unknown key is not dropped: it is in the
  dictionary that \<open>load\<close> returns.
\<close>

theorem load_counterexample:
  "load (Unreadable UnicodeDecodeError) = Inl UnicodeDecodeError \<and>
   load (Document (JArray [JInt 1])) = Inl TypeError \<and>
   load (Document JNull) = Inl TypeError \<and>
   \<not> isl (load (Document (JObject [(''theme'', JStr ''dark'')]))) \<and>
   projr (load (Document (JObject [(''theme'', JStr ''dark'')]))) ''theme''
     = Some (JStr ''dark'') \<and>
   DEFAULTS ''theme'' = None"
  by (simp add: dict_of_def DEFAULTS_def)

end
